theory Spec2Isabelle
  imports Main
begin

section \<open>JavaScript strings and numbers\<close>

text \<open>
  A JavaScript string is a sequence of UTF-16 code units. The regular expressions of
  \<^verbatim>\<open>dataTransform.ts\<close> distinguish code units beyond Latin-1 (the class
  \<^verbatim>\<open>\s\<close> contains U+2028, U+FEFF, ...), so a string is modelled as the list of
  its code units, each a natural number. \<open>js\<close> writes a literal.
\<close>

type_synonym jsstring = "nat list"

definition js :: "string \<Rightarrow> jsstring" where
  "js s = map of_char s"

text \<open>
  \<^verbatim>\<open>Number.prototype.toString()\<close> on a non-negative integer: its decimal digits.
  The numbers rendered by the modelled code are years, identifiers and counts.
\<close>

fun show_nat :: "nat \<Rightarrow> jsstring" where
  "show_nat n = (if n < 10 then [48 + n] else show_nat (n div 10) @ [48 + n mod 10])"

declare show_nat.simps [simp del]

definition toString :: "int \<Rightarrow> jsstring" where
  "toString i = (if i < 0 then 45 # show_nat (nat (- i)) else show_nat (nat i))"

text \<open>
  Reading a run of decimal digits back as a number, as \<^verbatim>\<open>parseInt\<close> does on the
  output of \<^verbatim>\<open>toString\<close>.
\<close>

definition readDecimal :: "jsstring \<Rightarrow> nat" where
  "readDecimal s = foldl (\<lambda>a c. 10 * a + (c - 48)) 0 s"

text \<open>
  Truthiness of an optional string (\<^verbatim>\<open>undefined\<close> and \<^verbatim>\<open>''\<close> are falsy) and of
  an optional number (\<^verbatim>\<open>undefined\<close> and \<^verbatim>\<open>0\<close> are falsy).
\<close>

definition truthy_str :: "jsstring option \<Rightarrow> bool" where
  "truthy_str v = (case v of None \<Rightarrow> False | Some s \<Rightarrow> s \<noteq> [])"

definition truthy_num :: "int option \<Rightarrow> bool" where
  "truthy_num v = (case v of None \<Rightarrow> False | Some n \<Rightarrow> n \<noteq> 0)"

text \<open>
  The character classes of the regular expressions: \<^verbatim>\<open>\w\<close> is
  \<^verbatim>\<open>[A-Za-z0-9_]\<close>, \<^verbatim>\<open>\d\<close> is \<^verbatim>\<open>[0-9]\<close>, and \<^verbatim>\<open>\s\<close> is the white
  space and line terminators of ECMAScript, which is also what
  \<^verbatim>\<open>String.prototype.trim\<close> strips.
\<close>

definition isDigit :: "nat \<Rightarrow> bool" where
  "isDigit c = (48 \<le> c \<and> c \<le> 57)"

definition isWordChar :: "nat \<Rightarrow> bool" where
  "isWordChar c = ((48 \<le> c \<and> c \<le> 57) \<or> (65 \<le> c \<and> c \<le> 90) \<or> c = 95 \<or> (97 \<le> c \<and> c \<le> 122))"

definition isSpace :: "nat \<Rightarrow> bool" where
  "isSpace c = ((9 \<le> c \<and> c \<le> 13) \<or> c = 32 \<or> c = 160 \<or> c = 5760 \<or> (8192 \<le> c \<and> c \<le> 8202)
     \<or> c = 8232 \<or> c = 8233 \<or> c = 8239 \<or> c = 8287 \<or> c = 12288 \<or> c = 65279)"

text \<open>
  \<^verbatim>\<open>s.replace(/re/g, ...)\<close> scans from the left; where the expression matches, the
  match is replaced and the scan goes on behind it, elsewhere the code unit is kept.
  None of the expressions below matches the empty string. A matcher is applied to the
  rest of the string and, when the expression matches at its head, gives the replacement
  and the length of the match less one.
\<close>

function (sequential) replaceAll ::
  "(jsstring \<Rightarrow> (jsstring \<times> nat) option) \<Rightarrow> jsstring \<Rightarrow> jsstring" where
  "replaceAll m [] = []"
| "replaceAll m (c # cs) =
     (case m (c # cs) of
        None \<Rightarrow> c # replaceAll m cs
      | Some (rep, n) \<Rightarrow> rep @ replaceAll m (drop n cs))"
  by pat_completeness auto
termination
  by (relation "measure (\<lambda>(m, s). length s)") auto

section \<open>dataTransform.ts: text cleaning\<close>

text \<open>
  \<^verbatim>\<open>/\[l=([^\]]+)\]/\<close> for a tag letter \<open>l\<close>, replaced by \<^verbatim>\<open>$1\<close>. The group is
  greedy and cannot step over a closing bracket, so the expression matches at the head
  exactly when the tag opens there, the run of code units up to the next closing bracket
  is not empty, and that bracket exists.
\<close>

definition tagRef :: "nat \<Rightarrow> jsstring \<Rightarrow> (jsstring \<times> nat) option" where
  "tagRef l s =
     (case s of
        a # b # c # rest \<Rightarrow>
          if a = 91 \<and> b = l \<and> c = 61 then
            (let body = takeWhile (\<lambda>x. x \<noteq> 93) rest; after = dropWhile (\<lambda>x. x \<noteq> 93) rest
             in if body \<noteq> [] \<and> after \<noteq> [] then Some (body, 3 + length body) else None)
          else None
      | _ \<Rightarrow> None)"

text \<open>\<^verbatim>\<open>/\[\w+=([^\]]+)\]/\<close>, replaced by \<^verbatim>\<open>$1\<close>.\<close>

definition anyRef :: "jsstring \<Rightarrow> (jsstring \<times> nat) option" where
  "anyRef s =
     (case s of
        a # r \<Rightarrow>
          if a = 91 then
            (let w = takeWhile isWordChar r in
             case dropWhile isWordChar r of
               e # rest \<Rightarrow>
                 if w \<noteq> [] \<and> e = 61 then
                   (let body = takeWhile (\<lambda>x. x \<noteq> 93) rest; after = dropWhile (\<lambda>x. x \<noteq> 93) rest
                    in if body \<noteq> [] \<and> after \<noteq> [] then Some (body, length w + 2 + length body)
                       else None)
                 else None
             | [] \<Rightarrow> None)
          else None
      | [] \<Rightarrow> None)"

text \<open>\<^verbatim>\<open>/\[\]/\<close>, replaced by the empty string.\<close>

definition emptyBrackets :: "jsstring \<Rightarrow> (jsstring \<times> nat) option" where
  "emptyBrackets s = (case s of a # b # rest \<Rightarrow> if a = 91 \<and> b = 93 then Some ([], 1) else None | _ \<Rightarrow> None)"

definition cleanDiscogsMarkup :: "jsstring \<Rightarrow> jsstring" where
  "cleanDiscogsMarkup text =
     (if text = [] then []
      else replaceAll emptyBrackets
            (replaceAll anyRef
              (replaceAll (tagRef 109)
                (replaceAll (tagRef 114)
                  (replaceAll (tagRef 97)
                    (replaceAll (tagRef 108) text))))))"

text \<open>\<^verbatim>\<open>String.prototype.trim\<close>.\<close>

definition trim :: "jsstring \<Rightarrow> jsstring" where
  "trim s = rev (dropWhile isSpace (rev (dropWhile isSpace s)))"

text \<open>\<^verbatim>\<open>.replace(/\s+/g, ' ')\<close>: every maximal run of white space becomes one space.\<close>

function (sequential) collapseSpaces :: "jsstring \<Rightarrow> jsstring" where
  "collapseSpaces [] = []"
| "collapseSpaces (c # cs) =
     (if isSpace c then 32 # collapseSpaces (dropWhile isSpace cs) else c # collapseSpaces cs)"
  by pat_completeness auto
termination
proof (relation "measure length")
  show "wf (measure length)" by simp
next
  fix c :: nat and cs :: "nat list"
  have "length (dropWhile isSpace cs) \<le> length cs" by (rule length_dropWhile_le)
  then show "(dropWhile isSpace cs, c # cs) \<in> measure length" by simp
next
  fix c :: nat and cs :: "nat list"
  show "(cs, c # cs) \<in> measure length" by simp
qed

text \<open>
  \<^verbatim>\<open>.replace(/[^\w\s\-.,!?()&"']/g, '')\<close>: the code units outside the class are
  deleted one by one, the others are kept.
\<close>

definition keptChar :: "nat \<Rightarrow> bool" where
  "keptChar c = (isWordChar c \<or> isSpace c \<or> c = 45 \<or> c = 46 \<or> c = 44 \<or> c = 33 \<or> c = 63
     \<or> c = 40 \<or> c = 41 \<or> c = 38 \<or> c = 34 \<or> c = 39)"

definition stripSpecial :: "jsstring \<Rightarrow> jsstring" where
  "stripSpecial s = filter keptChar s"

definition cleanText :: "jsstring \<Rightarrow> jsstring" where
  "cleanText text =
     (if text = [] then []
      else take 1000 (stripSpecial (collapseSpaces (trim (cleanDiscogsMarkup text)))))"


section \<open>dataTransform.ts: year resolution\<close>

text \<open>
  The raw Discogs data, with the fields that the year resolution and the enrichment read:
  identifiers, years, the master identifier, the notes, and the summary
  \<^verbatim>\<open>basic_information\<close> that a collection item carries. An optional or possibly
  missing field is an \<open>option\<close>.
\<close>

record BasicInformation =
  bi_id :: int
  bi_year :: "int option"
  bi_master_id :: "int option"

record DiscogsRelease =
  rel_id :: int
  rel_year :: "int option"
  rel_master_id :: "int option"
  rel_notes :: "jsstring option"
  basic_information :: "BasicInformation option"

record DiscogsMasterRelease =
  m_id :: int
  m_title :: jsstring
  m_year :: "int option"

text \<open>
  A literal of a regular expression under the flag \<^verbatim>\<open>i\<close>: two code units match when
  their canonical forms agree. The canonical form of an ASCII letter is its upper case;
  no code unit beyond ASCII has an ASCII canonical form.
\<close>

definition canonicalize :: "nat \<Rightarrow> nat" where
  "canonicalize c = (if 97 \<le> c \<and> c \<le> 122 then c - 32 else c)"

fun matchLiteral :: "jsstring \<Rightarrow> jsstring \<Rightarrow> jsstring option" where
  "matchLiteral [] s = Some s"
| "matchLiteral (p # ps) [] = None"
| "matchLiteral (p # ps) (c # cs) =
     (if canonicalize p = canonicalize c then matchLiteral ps cs else None)"

text \<open>
  \<^verbatim>\<open>/recorded\s+in\s+(\w+\s+\d{4})/i\<close> matched at the head of \<open>s\<close>; the result is the
  group. The classes \<^verbatim>\<open>\s\<close>, \<^verbatim>\<open>\w\<close> and the letters are pairwise disjoint and
  no digit is white space, so every greedy run is the maximal one.
\<close>

definition recordedIn :: "jsstring \<Rightarrow> jsstring option" where
  "recordedIn s =
     (case matchLiteral (js ''recorded'') s of
        None \<Rightarrow> None
      | Some r1 \<Rightarrow>
          if takeWhile isSpace r1 = [] then None
          else
            (case matchLiteral (js ''in'') (dropWhile isSpace r1) of
               None \<Rightarrow> None
             | Some r2 \<Rightarrow>
                 if takeWhile isSpace r2 = [] then None
                 else
                   (let r3 = dropWhile isSpace r2;
                        w = takeWhile isWordChar r3;
                        r4 = dropWhile isWordChar r3;
                        sp = takeWhile isSpace r4;
                        d = take 4 (dropWhile isSpace r4)
                    in if w \<noteq> [] \<and> sp \<noteq> [] \<and> length d = 4 \<and> list_all isDigit d
                       then Some (w @ sp @ d) else None)))"

text \<open>
  \<^verbatim>\<open>s.match(re)\<close> without the flag \<^verbatim>\<open>g\<close>: the leftmost match. In
  \<^verbatim>\<open>extractRecordingDate\<close> the notes are searched when they are a non-empty string,
  after their markup has been cleaned; otherwise, and when nothing matches, the release's
  own year is taken.\<close>

fun firstMatch :: "(jsstring \<Rightarrow> 'a option) \<Rightarrow> jsstring \<Rightarrow> 'a option" where
  "firstMatch m [] = m []"
| "firstMatch m (c # cs) = (case m (c # cs) of Some r \<Rightarrow> Some r | None \<Rightarrow> firstMatch m cs)"

definition recordedInNotes :: "DiscogsRelease \<Rightarrow> jsstring option" where
  "recordedInNotes release =
     (if truthy_str (rel_notes release)
      then firstMatch recordedIn (cleanDiscogsMarkup (the (rel_notes release)))
      else None)"

definition extractRecordingDate :: "DiscogsRelease \<Rightarrow> jsstring option" where
  "extractRecordingDate release =
     (case recordedInNotes release of
        Some dateMatch \<Rightarrow> Some dateMatch
      | None \<Rightarrow>
          if truthy_num (rel_year release) then Some (toString (the (rel_year release)))
          else None)"

text \<open>
  The field \<^verbatim>\<open>recordingDate\<close> of \<^verbatim>\<open>transformDiscogsMasterRelease\<close> (the local
  \<^verbatim>\<open>masterYear\<close>), and the field \<^verbatim>\<open>releaseDate\<close> of
  \<^verbatim>\<open>transformDiscogsVinylRelease\<close> (\<^verbatim>\<open>releaseData\<close> is
  \<^verbatim>\<open>basic_information || discogsRelease\<close>). No other field of the two results
  enters the year.
\<close>

definition masterYear :: "DiscogsMasterRelease \<Rightarrow> jsstring option" where
  "masterYear discogsMaster =
     (if truthy_num (m_year discogsMaster) \<and> the (m_year discogsMaster) > 0
      then Some (toString (the (m_year discogsMaster)))
      else None)"

definition releaseData_year :: "DiscogsRelease \<Rightarrow> int option" where
  "releaseData_year discogsRelease =
     (case basic_information discogsRelease of
        Some b \<Rightarrow> bi_year b
      | None \<Rightarrow> rel_year discogsRelease)"

definition releaseDate :: "DiscogsRelease \<Rightarrow> jsstring" where
  "releaseDate discogsRelease =
     (if truthy_num (releaseData_year discogsRelease)
      then toString (the (releaseData_year discogsRelease))
      else js ''Unknown'')"

text \<open>
  The field \<^verbatim>\<open>year\<close> of \<^verbatim>\<open>transformDiscogsToVinylRecord\<close>:
  \<^verbatim>\<open>masterRelease.recordingDate || vinylRelease.releaseDate || 'Unknown'\<close>, where
  \<^verbatim>\<open>masterRelease\<close> comes from the master when one is passed and from the release
  itself otherwise.
\<close>

definition transformDiscogsToVinylRecord_year ::
  "DiscogsRelease \<Rightarrow> DiscogsMasterRelease option \<Rightarrow> jsstring" where
  "transformDiscogsToVinylRecord_year discogsRelease discogsMaster =
     (let recordingDate =
            (case discogsMaster of
               Some m \<Rightarrow> masterYear m
             | None \<Rightarrow> extractRecordingDate discogsRelease)
      in if truthy_str recordingDate then the recordingDate
         else if releaseDate discogsRelease \<noteq> [] then releaseDate discogsRelease
         else js ''Unknown'')"

text \<open>
  The resolution in the words of the specification: the master's year when the master is
  present and its year is a positive number, otherwise the item's own release year when
  present, otherwise "Unknown".
\<close>

definition spec_year :: "DiscogsRelease \<Rightarrow> DiscogsMasterRelease option \<Rightarrow> jsstring" where
  "spec_year discogsRelease discogsMaster =
     (case (case discogsMaster of Some m \<Rightarrow> m_year m | None \<Rightarrow> None) of
        Some y \<Rightarrow>
          if y > 0 then toString y
          else (case releaseData_year discogsRelease of
                  Some r \<Rightarrow> toString r | None \<Rightarrow> js ''Unknown'')
      | None \<Rightarrow>
          (case releaseData_year discogsRelease of
             Some r \<Rightarrow> toString r | None \<Rightarrow> js ''Unknown''))"

section \<open>dataTransform.ts: validation\<close>

text \<open>
  The fields of a \<^verbatim>\<open>VinylRecord\<close> that validation and the cache read. Validation
  exists because a field may be missing at run time, so each is an \<open>option\<close>.
\<close>

record Track =
  tr_number :: nat
  tr_title :: jsstring
  tr_duration :: jsstring

record VinylRecord =
  vr_id :: "jsstring option"
  vr_title :: "jsstring option"
  vr_artist :: "jsstring option"
  vr_year :: "jsstring option"
  vr_label :: "jsstring option"
  vr_genres :: "jsstring list option"
  vr_coverUrl :: "jsstring option"
  vr_tracks :: "Track list option"

definition validateVinylRecord :: "VinylRecord \<Rightarrow> bool" where
  "validateVinylRecord record =
     (truthy_str (vr_id record) \<and>
      truthy_str (vr_title record) \<and>
      truthy_str (vr_artist record) \<and>
      truthy_str (vr_year record) \<and>
      truthy_str (vr_label record) \<and>
      (case vr_genres record of None \<Rightarrow> False | Some g \<Rightarrow> length g > 0) \<and>
      truthy_str (vr_coverUrl record) \<and>
      (case vr_tracks record of None \<Rightarrow> False | Some t \<Rightarrow> length t > 0))"

definition filterValidRecords :: "VinylRecord list \<Rightarrow> VinylRecord list" where
  "filterValidRecords records = filter validateVinylRecord records"

text \<open>
  The acceptance rule in the words of the specification: a field is present when it holds
  a non-empty value.
\<close>

definition present :: "'a list option \<Rightarrow> bool" where
  "present v = (v \<noteq> None \<and> v \<noteq> Some [])"

definition requiredFieldsPresent :: "VinylRecord \<Rightarrow> bool" where
  "requiredFieldsPresent r =
     (present (vr_id r) \<and> present (vr_title r) \<and> present (vr_artist r) \<and> present (vr_year r)
      \<and> present (vr_label r) \<and> present (vr_genres r) \<and> present (vr_coverUrl r)
      \<and> present (vr_tracks r))"


section \<open>cacheService.ts\<close>

text \<open>
  The local store holds two keys, \<^verbatim>\<open>vinyl_collection\<close> and
  \<^verbatim>\<open>collection_metadata\<close>; \<open>None\<close> is a key without a value. Reading and the
  single-record writes of localforage are modelled as succeeding; the write of a whole
  collection may fail, since the orchestrator treats that failure.
\<close>

record CacheMetadata =
  lastSync :: int
  version :: jsstring
  totalRecords :: nat
  syncDuration :: int
  md_errors :: "jsstring list option"

record Store =
  collection :: "VinylRecord list option"
  metadata :: "CacheMetadata option"

definition CACHE_VERSION :: jsstring where
  "CACHE_VERSION = js ''1.0.0''"

definition CACHE_EXPIRY_HOURS :: int where
  "CACHE_EXPIRY_HOURS = 24"

definition getMetadata :: "Store \<Rightarrow> CacheMetadata option" where
  "getMetadata st = metadata st"

definition getCachedCollection :: "Store \<Rightarrow> VinylRecord list option" where
  "getCachedCollection st = collection st"

text \<open>\<open>now\<close> is the value of \<^verbatim>\<open>Date.now()\<close> at the call.\<close>

definition isCacheValid :: "int \<Rightarrow> Store \<Rightarrow> bool" where
  "isCacheValid now st =
     (case getMetadata st of
        None \<Rightarrow> False
      | Some m \<Rightarrow>
          (let cacheAge = now - lastSync m;
               maxAge = CACHE_EXPIRY_HOURS * 60 * 60 * 1000
           in cacheAge < maxAge))"

text \<open>
  \<^verbatim>\<open>cacheCollection\<close> writes both keys with \<^verbatim>\<open>Promise.all\<close> and throws
  \<^verbatim>\<open>'Failed to cache collection data'\<close> when a write is rejected; a rejected write
  leaves its key as it was.
\<close>

datatype WriteOutcome = WriteOk | CollectionWriteFailed | MetadataWriteFailed | BothWritesFailed

definition cacheCollection ::
  "int \<Rightarrow> WriteOutcome \<Rightarrow> VinylRecord list \<Rightarrow> int \<Rightarrow> jsstring list \<Rightarrow> Store \<Rightarrow> jsstring option \<times> Store" where
  "cacheCollection now w records duration errs st =
     (let md = \<lparr>lastSync = now, version = CACHE_VERSION, totalRecords = length records,
                syncDuration = duration,
                md_errors = (if length errs > 0 then Some errs else None)\<rparr>
      in case w of
           WriteOk \<Rightarrow> (None, st\<lparr>collection := Some records, metadata := Some md\<rparr>)
         | CollectionWriteFailed \<Rightarrow>
             (Some (js ''Failed to cache collection data''), st\<lparr>metadata := Some md\<rparr>)
         | MetadataWriteFailed \<Rightarrow>
             (Some (js ''Failed to cache collection data''), st\<lparr>collection := Some records\<rparr>)
         | BothWritesFailed \<Rightarrow> (Some (js ''Failed to cache collection data''), st))"

definition clearCache :: "Store \<Rightarrow> Store" where
  "clearCache st = st\<lparr>collection := None, metadata := None\<rparr>"

text \<open>\<^verbatim>\<open>Array.prototype.findIndex\<close>; \<open>None\<close> stands for \<^verbatim>\<open>-1\<close>.\<close>

fun findIndex :: "('a \<Rightarrow> bool) \<Rightarrow> 'a list \<Rightarrow> nat option" where
  "findIndex P [] = None"
| "findIndex P (x # xs) = (if P x then Some 0 else map_option Suc (findIndex P xs))"









section \<open>discogsService.ts: requests with retry\<close>

text \<open>
  What the server answers to one attempt of a request: the data, an error response with
  its status and its body, or no response at all (a network error or a timeout, with the
  message of the error that axios raises). The body of an error response is
  \<^verbatim>\<open>null\<close> or \<^verbatim>\<open>undefined\<close>, or a value with or without a \<^verbatim>\<open>message\<close>.
\<close>

datatype Body = NoBody | Body "jsstring option"

datatype 'a Response =
  Success 'a
| ErrorResponse nat Body
| NoResponse jsstring

text \<open>
  What an attempt throws: a plain \<^verbatim>\<open>Error\<close> with its message, or a
  \<^verbatim>\<open>TypeError\<close>, whose wording is the engine's.
\<close>

datatype Failure = PlainError jsstring | TypeError

text \<open>
  The response interceptor of the axios client: an error response is thrown again as a
  plain \<^verbatim>\<open>Error\<close> whose message depends on the status; for the statuses other than
  401, 403 and 404 the message reads \<^verbatim>\<open>data.message\<close>, which raises a
  \<^verbatim>\<open>TypeError\<close> when the body is \<^verbatim>\<open>null\<close>. An error without a response is
  thrown as it is.
\<close>

definition orUnknownError :: "jsstring option \<Rightarrow> jsstring" where
  "orUnknownError m = (if truthy_str m then the m else js ''Unknown error'')"

definition responseInterceptor :: "'a Response \<Rightarrow> Failure + 'a" where
  "responseInterceptor r =
     (case r of
        Success d \<Rightarrow> Inr d
      | ErrorResponse status d \<Rightarrow>
          if status = 401
          then Inl (PlainError (js ''Invalid Discogs API token. Please check your credentials.''))
          else if status = 403
          then Inl (PlainError (js ''Rate limit exceeded. Please wait before making more requests.''))
          else if status = 404 then Inl (PlainError (js ''Resource not found.''))
          else if status = 422 then
            (case d of
               NoBody \<Rightarrow> Inl TypeError
             | Body m \<Rightarrow> Inl (PlainError (js ''Invalid parameters: '' @ orUnknownError m)))
          else
            (case d of
               NoBody \<Rightarrow> Inl TypeError
             | Body m \<Rightarrow>
                 Inl (PlainError (js ''Discogs API Error: '' @ show_nat status @ js '' - ''
                                  @ orUnknownError m)))
      | NoResponse e \<Rightarrow> Inl (PlainError e))"

text \<open>
  \<^verbatim>\<open>pRetry(run, {retries, factor, minTimeout, maxTimeout})\<close> of the package p-retry:
  it calls \<^verbatim>\<open>run\<close>, and when the call is rejected and retries are left it waits and
  calls again. It gives up at once for an \<^verbatim>\<open>AbortError\<close>, which the service never
  constructs, and for a \<^verbatim>\<open>TypeError\<close> that is not a network error of
  \<^verbatim>\<open>fetch\<close>. The wait before retry \<open>k\<close> (counted from 0) is
  \<^verbatim>\<open>min(maxTimeout, minTimeout * factor^k)\<close>. When the last attempt is rejected, the
  promise is rejected with one of the attempts' errors; the model keeps them all, in
  order. The result is the outcome, the number of attempts made and the waits in
  milliseconds.
\<close>

record RetryOptions =
  retries :: nat
  factor :: nat
  minTimeout :: nat
  maxTimeout :: nat

definition backoff :: "RetryOptions \<Rightarrow> nat \<Rightarrow> nat" where
  "backoff opts k = min (maxTimeout opts) (minTimeout opts * factor opts ^ k)"

fun pRetryFrom ::
  "RetryOptions \<Rightarrow> (nat \<Rightarrow> Failure + 'a) \<Rightarrow> nat \<Rightarrow> nat \<Rightarrow> nat list \<Rightarrow> Failure list
   \<Rightarrow> (Failure list + 'a) \<times> nat \<times> nat list" where
  "pRetryFrom opts run 0 attemptNumber waits errs =
     (case run attemptNumber of
        Inr v \<Rightarrow> (Inr v, attemptNumber, waits)
      | Inl e \<Rightarrow> (Inl (errs @ [e]), attemptNumber, waits))"
| "pRetryFrom opts run (Suc retriesLeft) attemptNumber waits errs =
     (case run attemptNumber of
        Inr v \<Rightarrow> (Inr v, attemptNumber, waits)
      | Inl TypeError \<Rightarrow> (Inl (errs @ [TypeError]), attemptNumber, waits)
      | Inl (PlainError m) \<Rightarrow>
          pRetryFrom opts run retriesLeft (Suc attemptNumber)
            (waits @ [backoff opts (attemptNumber - 1)]) (errs @ [PlainError m]))"

definition pRetry ::
  "RetryOptions \<Rightarrow> (nat \<Rightarrow> Failure + 'a) \<Rightarrow> (Failure list + 'a) \<times> nat \<times> nat list" where
  "pRetry opts run = pRetryFrom opts run (retries opts) 1 [] []"

text \<open>
  \<^verbatim>\<open>makeRequest\<close>: \<open>responses n\<close> is the server's answer to attempt \<open>n\<close>. The queue
  delays the request and does not change its outcome.
\<close>

definition retryOptions :: RetryOptions where
  "retryOptions = \<lparr>retries = 3, factor = 2, minTimeout = 1000, maxTimeout = 5000\<rparr>"

definition makeRequest ::
  "(nat \<Rightarrow> 'a Response) \<Rightarrow> (Failure list + 'a) \<times> nat \<times> nat list" where
  "makeRequest responses = pRetry retryOptions (\<lambda>n. responseInterceptor (responses n))"

section \<open>discogsService.ts: enrichment with master data\<close>

text \<open>
  \<^verbatim>\<open>enrichWithMasterData\<close> handles the releases in batches of ten. Within a batch
  every release runs an asynchronous function of three segments: it asks for the
  detailed release at once; when that request settles it looks the master identifier up
  in \<^verbatim>\<open>masterCache\<close> and, on a miss, asks for the master; when that request settles
  it stores the master in the map. A segment runs without interruption, and the order in
  which the requests of different releases settle is the network's: it is given as a
  schedule, a list of positions in the batch, each occurrence resuming that release by
  one segment.
\<close>

record Remote =
  getRelease :: "int \<Rightarrow> DiscogsRelease option"
  getMasterRelease :: "int \<Rightarrow> DiscogsMasterRelease option"

text \<open>
  An enriched release: the detailed release, which is what the detail request resolved
  with (\<open>None\<close> when that is \<^verbatim>\<open>null\<close>), and the master when there is one.
\<close>

record Enriched =
  release :: "DiscogsRelease option"
  master :: "DiscogsMasterRelease option"

datatype Stage = AwaitingRelease | AwaitingMaster int | Finished

record Task =
  t_release :: DiscogsRelease
  t_stage :: Stage
  t_detailed :: DiscogsRelease
  t_master :: "DiscogsMasterRelease option"

record EnrichState =
  masterCache :: "int \<Rightarrow> DiscogsMasterRelease option"
  releaseCalls :: "int list"
  masterCalls :: "int list"

text \<open>
  \<^verbatim>\<open>basicInfo?.id || release.id\<close> and
  \<^verbatim>\<open>basicInfo?.master_id || release.master_id\<close>.
\<close>

definition releaseIdOf :: "DiscogsRelease \<Rightarrow> int" where
  "releaseIdOf r =
     (case basic_information r of
        Some b \<Rightarrow> if bi_id b \<noteq> 0 then bi_id b else rel_id r
      | None \<Rightarrow> rel_id r)"

definition masterIdOf :: "DiscogsRelease \<Rightarrow> int option" where
  "masterIdOf r =
     (case basic_information r of
        Some b \<Rightarrow> if truthy_num (bi_master_id b) then bi_master_id b else rel_master_id r
      | None \<Rightarrow> rel_master_id r)"

definition resume :: "Remote \<Rightarrow> Task \<Rightarrow> EnrichState \<Rightarrow> Task \<times> EnrichState" where
  "resume remote t st =
     (case t_stage t of
        AwaitingRelease \<Rightarrow>
          (let detailedRelease =
                 (case getRelease remote (releaseIdOf (t_release t)) of
                    Some d \<Rightarrow> d
                  | None \<Rightarrow> t_release t);
               masterId = masterIdOf (t_release t)
           in if truthy_num masterId then
                (case masterCache st (the masterId) of
                   Some m \<Rightarrow>
                     (t\<lparr>t_detailed := detailedRelease, t_master := Some m, t_stage := Finished\<rparr>, st)
                 | None \<Rightarrow>
                     (t\<lparr>t_detailed := detailedRelease, t_stage := AwaitingMaster (the masterId)\<rparr>,
                      st\<lparr>masterCalls := masterCalls st @ [the masterId]\<rparr>))
              else (t\<lparr>t_detailed := detailedRelease, t_stage := Finished\<rparr>, st))
      | AwaitingMaster masterId \<Rightarrow>
          (case getMasterRelease remote masterId of
             Some m \<Rightarrow>
               (t\<lparr>t_master := Some m, t_stage := Finished\<rparr>,
                st\<lparr>masterCache := (masterCache st)(masterId \<mapsto> m)\<rparr>)
           | None \<Rightarrow> (t\<lparr>t_stage := Finished\<rparr>, st))
      | Finished \<Rightarrow> (t, st))"

definition resumeAt :: "Remote \<Rightarrow> nat \<Rightarrow> Task list \<times> EnrichState \<Rightarrow> Task list \<times> EnrichState" where
  "resumeAt remote i p =
     (case p of (tasks, st) \<Rightarrow>
        if i < length tasks
        then (case resume remote (tasks ! i) st of (t, st') \<Rightarrow> (tasks[i := t], st'))
        else (tasks, st))"

text \<open>
  One batch: the detail requests are issued in order, the schedule is run, and since
  \<^verbatim>\<open>Promise.all\<close> waits for every release, whatever the schedule left unfinished is
  resumed in order until it is finished (two segments at most).
\<close>

definition processBatch ::
  "Remote \<Rightarrow> nat list \<Rightarrow> DiscogsRelease list \<Rightarrow> EnrichState \<Rightarrow> Enriched list \<times> EnrichState" where
  "processBatch remote schedule batch st =
     (let st0 = st\<lparr>releaseCalls := releaseCalls st @ map releaseIdOf batch\<rparr>;
          tasks0 = map (\<lambda>r. \<lparr>t_release = r, t_stage = AwaitingRelease, t_detailed = r,
                              t_master = None\<rparr>) batch;
          rest = [0..<length batch]
      in case fold (resumeAt remote) (schedule @ rest @ rest) (tasks0, st0) of
           (tasks, st1) \<Rightarrow>
             (map (\<lambda>t. \<lparr>release = Some (t_detailed t), master = t_master t\<rparr>) tasks, st1))"

definition batchSize :: nat where
  "batchSize = 10"

function (sequential) enrichLoop ::
  "Remote \<Rightarrow> nat list list \<Rightarrow> DiscogsRelease list \<Rightarrow> EnrichState \<Rightarrow> Enriched list \<times> EnrichState" where
  "enrichLoop remote schedules [] st = ([], st)"
| "enrichLoop remote schedules (r # rs) st =
     (case processBatch remote (case schedules of [] \<Rightarrow> [] | s # _ \<Rightarrow> s)
             (take batchSize (r # rs)) st of
        (batchResults, st1) \<Rightarrow>
          (case enrichLoop remote (tl schedules) (drop batchSize (r # rs)) st1 of
             (others, st2) \<Rightarrow> (batchResults @ others, st2)))"
  by pat_completeness auto
termination
  by (relation "measure (\<lambda>(remote, schedules, releases, st). length releases)")
     (auto simp: batchSize_def)

definition enrichWithMasterData ::
  "Remote \<Rightarrow> nat list list \<Rightarrow> DiscogsRelease list \<Rightarrow> Enriched list \<times> EnrichState" where
  "enrichWithMasterData remote schedules releases =
     enrichLoop remote schedules releases
       \<lparr>masterCache = Map.empty, releaseCalls = [], masterCalls = []\<rparr>"


section \<open>syncService.ts\<close>

datatype Phase = Connecting | Fetching | Transforming | Caching | Complete | ErrorPhase

record SyncProgress =
  phase :: Phase
  progress :: nat
  message :: jsstring
  p_recordsProcessed :: "nat option"
  p_totalRecords :: "nat option"

record SyncResult =
  success :: bool
  recordsProcessed :: nat
  errors :: "jsstring list"
  duration :: int
  fromCache :: bool

text \<open>
  What a \<^verbatim>\<open>catch\<close> receives: an \<^verbatim>\<open>Error\<close> with its message, or some other value.
\<close>

datatype Thrown = ErrorObj jsstring | NonError

text \<open>The result of \<^verbatim>\<open>discogsService.testConnection()\<close>, which never throws.\<close>

record ConnectionTest =
  ct_success :: bool
  ct_message :: jsstring
  ct_username :: "jsstring option"

datatype RemoteCall = TestConnection | GetAllUserCollection | EnrichWithMasterData

text \<open>
  The surroundings of one call of the orchestrator: the clock at each reading of
  \<^verbatim>\<open>Date.now()\<close>, the outcome of each remote operation (a thrown value or a
  result; an entry of a fetched list is \<open>None\<close> when it is \<^verbatim>\<open>null\<close>), whether
  \<^verbatim>\<open>cancelCurrentSync()\<close> was called while the connection test or the collection
  fetch was awaited, the record transformation of a release that is not \<^verbatim>\<open>null\<close>
  (\<open>None\<close> where it throws; it draws on \<^verbatim>\<open>Math.random\<close> and \<^verbatim>\<open>Date.now\<close>),
  the engine's message for the \<^verbatim>\<open>TypeError\<close> of reading a property of
  \<^verbatim>\<open>null\<close>, and the outcome of the cache write. The progress callback is taken not
  to throw.
\<close>

record Env =
  validityTime :: int
  startTime :: int
  durationTime :: int
  cacheTime :: int
  failTime :: int
  testConnection :: ConnectionTest
  getAllUserCollection :: "Thrown + DiscogsRelease option list"
  cancelRequested :: bool
  enrichOutcome :: "DiscogsRelease option list \<Rightarrow> Thrown + Enriched list"
  transformDiscogsToVinylRecord ::
    "DiscogsRelease \<Rightarrow> DiscogsMasterRelease option \<Rightarrow> nat \<Rightarrow> VinylRecord option"
  nullReadMessage :: jsstring
  cacheWrite :: WriteOutcome

text \<open>
  What a run has done so far: the progress events delivered, the \<^verbatim>\<open>errors\<close> array,
  the store, and the remote operations called.
\<close>

record Run =
  run_events :: "SyncProgress list"
  run_errors :: "jsstring list"
  run_store :: Store
  run_calls :: "RemoteCall list"

definition onProgress :: "Phase \<Rightarrow> nat \<Rightarrow> jsstring \<Rightarrow> Run \<Rightarrow> Run" where
  "onProgress ph n msg s =
     s\<lparr>run_events := run_events s @
          [\<lparr>phase = ph, progress = n, message = msg,
            p_recordsProcessed = None, p_totalRecords = None\<rparr>]\<rparr>"

definition onProgressComplete :: "jsstring \<Rightarrow> nat \<Rightarrow> Run \<Rightarrow> Run" where
  "onProgressComplete msg n s =
     s\<lparr>run_events := run_events s @
          [\<lparr>phase = Complete, progress = 100, message = msg,
            p_recordsProcessed = Some n, p_totalRecords = Some n\<rparr>]\<rparr>"

definition called :: "RemoteCall \<Rightarrow> Run \<Rightarrow> Run" where
  "called c s = s\<lparr>run_calls := run_calls s @ [c]\<rparr>"

text \<open>
  The \<^verbatim>\<open>forEach\<close> over the enriched releases. The transformation of a release sits
  in a \<^verbatim>\<open>try\<close> whose handler logs \<^verbatim>\<open>enriched.release.id\<close> and goes on: a
  release whose transformation throws is skipped. For a release that is \<^verbatim>\<open>null\<close>
  the transformation throws at its first property access and the handler throws again
  at \<^verbatim>\<open>enriched.release.id\<close>; that \<^verbatim>\<open>TypeError\<close> leaves the loop.
\<close>

fun transformEach ::
  "(DiscogsRelease \<Rightarrow> DiscogsMasterRelease option \<Rightarrow> nat \<Rightarrow> VinylRecord option)
   \<Rightarrow> jsstring \<Rightarrow> Enriched list \<Rightarrow> nat \<Rightarrow> Thrown + VinylRecord list" where
  "transformEach f msg [] index = Inr []"
| "transformEach f msg (e # es) index =
     (case release e of
        None \<Rightarrow> Inl (ErrorObj msg)
      | Some r \<Rightarrow>
          (case f r (master e) index of
             Some vinylRecord \<Rightarrow>
               (case transformEach f msg es (Suc index) of
                  Inl t \<Rightarrow> Inl t
                | Inr transformedRecords \<Rightarrow> Inr (vinylRecord # transformedRecords))
           | None \<Rightarrow> transformEach f msg es (Suc index)))"

definition invalidMessage :: "nat \<Rightarrow> jsstring" where
  "invalidMessage invalidCount = show_nat invalidCount @ js '' records were invalid and filtered out''"

text \<open>The \<^verbatim>\<open>try\<close> block from the transformation on.\<close>

definition transformAndCache ::
  "Env \<Rightarrow> Enriched list \<Rightarrow> Run \<Rightarrow> (Thrown + VinylRecord list \<times> int) \<times> Run" where
  "transformAndCache env enrichedReleases s =
     (let s1 = onProgress Transforming 70 (js ''Converting releases to app format...'') s
      in case transformEach (transformDiscogsToVinylRecord env) (nullReadMessage env)
                enrichedReleases 0 of
           Inl t \<Rightarrow> (Inl t, s1)
         | Inr transformedRecords \<Rightarrow>
             (let validRecords = filterValidRecords transformedRecords;
                  s2 = (if length validRecords \<noteq> length transformedRecords
                        then s1\<lparr>run_errors := run_errors s1 @
                               [invalidMessage (length transformedRecords - length validRecords)]\<rparr>
                        else s1);
                  s3 = onProgress Transforming 80
                         (js ''Processed '' @ show_nat (length validRecords) @ js '' valid records'') s2;
                  s4 = onProgress Caching 90 (js ''Saving to local cache...'') s3;
                  d = durationTime env - startTime env
              in case cacheCollection (cacheTime env) (cacheWrite env) validRecords d
                        (run_errors s4) (run_store s4) of
                   (Some msg, st) \<Rightarrow> (Inl (ErrorObj msg), s4\<lparr>run_store := st\<rparr>)
                 | (None, st) \<Rightarrow>
                     (Inr (validRecords, d),
                      onProgressComplete
                        (js ''Sync complete! '' @ show_nat (length validRecords)
                         @ js '' records cached'')
                        (length validRecords) (s4\<lparr>run_store := st\<rparr>))))"

text \<open>
  The \<^verbatim>\<open>try\<close> block of \<^verbatim>\<open>syncFromDiscogs\<close>. The cancellation flag is cleared just
  before the block, so its first test never fires; the second test sees a cancellation
  requested while the first two remote operations were awaited.
\<close>

definition syncTry :: "Env \<Rightarrow> bool \<Rightarrow> Run \<Rightarrow> (Thrown + VinylRecord list \<times> int) \<times> Run" where
  "syncTry env skipMasterData s0 =
     (let s1 = called TestConnection (onProgress Connecting 0 (js ''Connecting to Discogs API...'') s0);
          connectionTest = testConnection env
      in if \<not> ct_success connectionTest then (Inl (ErrorObj (ct_message connectionTest)), s1)
         else
           (let s2 = onProgress Connecting 10
                       (js ''Connected as '' @
                          (if truthy_str (ct_username connectionTest)
                           then the (ct_username connectionTest) else js ''Unknown User'')) s1;
                s3 = called GetAllUserCollection
                       (onProgress Fetching 20 (js ''Fetching collection from Discogs...'') s2)
            in case getAllUserCollection env of
                 Inl t \<Rightarrow> (Inl t, s3)
               | Inr discogsReleases \<Rightarrow>
                   if cancelRequested env then (Inl (ErrorObj (js ''Sync cancelled by user'')), s3)
                   else if length discogsReleases = 0
                   then (Inl (ErrorObj (js ''No releases found in your Discogs collection'')), s3)
                   else
                     (let s4 = onProgress Fetching 40
                                 (js ''Fetched '' @ show_nat (length discogsReleases) @ js '' releases'') s3
                      in if skipMasterData then
                           transformAndCache env
                             (map (\<lambda>r. \<lparr>release = r, master = None\<rparr>) discogsReleases)
                             (onProgress Fetching 60 (js ''Skipping master data for faster sync...'') s4)
                         else
                           (let s5 = called EnrichWithMasterData
                                       (onProgress Fetching 50 (js ''Fetching master release data...'') s4)
                            in case enrichOutcome env discogsReleases of
                                 Inl t \<Rightarrow> (Inl t, s5)
                               | Inr enrichedReleases \<Rightarrow>
                                   transformAndCache env enrichedReleases
                                     (onProgress Fetching 60
                                        (js ''Enriched '' @ show_nat (length enrichedReleases) @
                                         js '' releases with master data'') s5)))))"

text \<open>What a call hands back, with what it did to the store and which events it delivered.\<close>

record SyncOutput =
  out_records :: "VinylRecord list"
  out_result :: SyncResult
  out_events :: "SyncProgress list"
  out_store :: Store
  out_calls :: "RemoteCall list"

text \<open>The \<^verbatim>\<open>catch\<close> block of \<^verbatim>\<open>syncFromDiscogs\<close>.\<close>

definition errorMessageOf :: "Thrown \<Rightarrow> jsstring" where
  "errorMessageOf t = (case t of ErrorObj m \<Rightarrow> m | NonError \<Rightarrow> js ''Unknown sync error'')"

definition syncCatch :: "Env \<Rightarrow> Thrown \<Rightarrow> Run \<Rightarrow> SyncOutput" where
  "syncCatch env t s =
     (let errorMessage = errorMessageOf t;
          s1 = s\<lparr>run_errors := run_errors s @ [errorMessage]\<rparr>;
          s2 = onProgress ErrorPhase 0 (js ''Sync failed: '' @ errorMessage) s1;
          empty = \<lparr>out_records = [],
                   out_result = \<lparr>success = False, recordsProcessed = 0, errors = run_errors s2,
                                  duration = failTime env - startTime env, fromCache = False\<rparr>,
                   out_events = run_events s2, out_store = run_store s2, out_calls = run_calls s2\<rparr>
      in case getCachedCollection (run_store s2) of
           Some cachedRecords \<Rightarrow>
             if length cachedRecords > 0 then
               \<lparr>out_records = cachedRecords,
                out_result = \<lparr>success = False, recordsProcessed = length cachedRecords,
                               errors = run_errors s2,
                               duration = failTime env - startTime env, fromCache = True\<rparr>,
                out_events = run_events s2, out_store = run_store s2, out_calls = run_calls s2\<rparr>
             else empty
         | None \<Rightarrow> empty)"

text \<open>A run starts with no event delivered, no error recorded and no operation called.\<close>

definition initialRun :: "Store \<Rightarrow> Run" where
  "initialRun st = \<lparr>run_events = [], run_errors = [], run_store = st, run_calls = []\<rparr>"

text \<open>
  \<^verbatim>\<open>syncFromDiscogs\<close>: \<open>isSync\<close> is the in-flight flag at the call; \<open>Inl\<close> is the error
  thrown to the caller. The flags are reset when the call ends.
\<close>

definition syncFromDiscogs :: "Env \<Rightarrow> bool \<Rightarrow> bool \<Rightarrow> Store \<Rightarrow> jsstring + SyncOutput" where
  "syncFromDiscogs env skipMasterData isSync st =
     (if isSync then Inl (js ''Sync already in progress'')
      else
        (case syncTry env skipMasterData (initialRun st) of
           (Inr (validRecords, d), s) \<Rightarrow>
             Inr \<lparr>out_records = validRecords,
                  out_result = \<lparr>success = True, recordsProcessed = length validRecords,
                                 errors = run_errors s, duration = d, fromCache = False\<rparr>,
                  out_events = run_events s, out_store = run_store s, out_calls = run_calls s\<rparr>
         | (Inl t, s) \<Rightarrow> Inr (syncCatch env t s)))"

definition cacheHit :: "VinylRecord list \<Rightarrow> Store \<Rightarrow> SyncOutput" where
  "cacheHit cachedRecords st =
     \<lparr>out_records = cachedRecords,
      out_result = \<lparr>success = True, recordsProcessed = length cachedRecords, errors = [],
                     duration = 0, fromCache = True\<rparr>,
      out_events =
        [\<lparr>phase = Complete, progress = 100,
          message = js ''Loaded '' @ show_nat (length cachedRecords) @ js '' records from cache'',
          p_recordsProcessed = Some (length cachedRecords),
          p_totalRecords = Some (length cachedRecords)\<rparr>],
      out_store = st, out_calls = []\<rparr>"

definition getVinylRecords :: "Env \<Rightarrow> bool \<Rightarrow> bool \<Rightarrow> bool \<Rightarrow> Store \<Rightarrow> jsstring + SyncOutput" where
  "getVinylRecords env forceRefresh skipMasterData isSync st =
     (if \<not> forceRefresh then
        (if isCacheValid (validityTime env) st then
           (case getCachedCollection st of
              Some cachedRecords \<Rightarrow>
                if length cachedRecords > 0 then Inr (cacheHit cachedRecords st)
                else syncFromDiscogs env skipMasterData isSync st
            | None \<Rightarrow> syncFromDiscogs env skipMasterData isSync st)
         else syncFromDiscogs env skipMasterData isSync st)
      else syncFromDiscogs env skipMasterData isSync st)"


section \<open>Sample data\<close>

text \<open>Concrete inputs at which the theorems below are instantiated.\<close>

definition item1970 :: DiscogsRelease where
  "item1970 = \<lparr>rel_id = 1, rel_year = Some 1970, rel_master_id = Some 7, rel_notes = None,
     basic_information = None\<rparr>"

definition itemNoYear :: DiscogsRelease where
  "itemNoYear = \<lparr>rel_id = 2, rel_year = None, rel_master_id = Some 7, rel_notes = None,
     basic_information = None\<rparr>"

definition notedRelease :: DiscogsRelease where
  "notedRelease = \<lparr>rel_id = 3, rel_year = Some 1970, rel_master_id = None,
     rel_notes = Some (js ''Recorded in May 1957''), basic_information = None\<rparr>"

definition master1965 :: DiscogsMasterRelease where
  "master1965 = \<lparr>m_id = 7, m_title = js ''Blue Train'', m_year = Some 1965\<rparr>"

definition masterYear0 :: DiscogsMasterRelease where
  "masterYear0 = \<lparr>m_id = 7, m_title = js ''Blue Train'', m_year = Some 0\<rparr>"

definition sampleTransform :: "DiscogsRelease \<Rightarrow> DiscogsMasterRelease option \<Rightarrow> nat \<Rightarrow> VinylRecord option" where
  "sampleTransform r m index =
     Some \<lparr>vr_id = Some (toString (rel_id r)), vr_title = Some (js ''Blue Train''),
            vr_artist = Some (js ''John Coltrane''),
            vr_year = Some (transformDiscogsToVinylRecord_year r m),
            vr_label = Some (js ''Blue Note''),
            vr_genres = Some (if rel_id r = 2 then [] else [js ''Jazz'']),
            vr_coverUrl = Some (js ''cover.jpg''),
            vr_tracks = Some [\<lparr>tr_number = 1, tr_title = js ''Blue Train'', tr_duration = js ''10:43''\<rparr>]\<rparr>"

definition sampleRecord :: VinylRecord where
  "sampleRecord = the (sampleTransform item1970 (Some master1965) 0)"

definition sampleEnv :: Env where
  "sampleEnv =
     \<lparr>validityTime = 5000, startTime = 5000, durationTime = 9000, cacheTime = 9000,
      failTime = 9500,
      testConnection = \<lparr>ct_success = True, ct_message = js ''Successfully connected'',
                         ct_username = Some (js ''collector'')\<rparr>,
      getAllUserCollection = Inr [Some item1970, Some itemNoYear],
      cancelRequested = False,
      enrichOutcome = (\<lambda>rs. Inr (map (\<lambda>r. \<lparr>release = r, master = Some master1965\<rparr>) rs)),
      transformDiscogsToVinylRecord = sampleTransform,
      nullReadMessage = js ''Cannot read properties of null'',
      cacheWrite = WriteOk\<rparr>"

definition emptyStore :: Store where
  "emptyStore = \<lparr>collection = None, metadata = None\<rparr>"

definition cachedStore :: Store where
  "cachedStore =
     \<lparr>collection = Some [sampleRecord],
      metadata = Some \<lparr>lastSync = 1000, version = CACHE_VERSION, totalRecords = 1,
                        syncDuration = 4000, md_errors = None\<rparr>\<rparr>"


definition cancelledEmptyEnv :: Env where
  "cancelledEmptyEnv = sampleEnv\<lparr>getAllUserCollection := Inr [], cancelRequested := True\<rparr>"

definition emptyCollectionEnv :: Env where
  "emptyCollectionEnv = sampleEnv\<lparr>getAllUserCollection := Inr []\<rparr>"

definition sampleRemote :: Remote where
  "sampleRemote = \<lparr>getRelease = (\<lambda>i. None), getMasterRelease = (\<lambda>k. Some master1965)\<rparr>"

definition twoPressings :: "DiscogsRelease list" where
  "twoPressings = [item1970, itemNoYear]"

definition invalidRecord :: VinylRecord where
  "invalidRecord = the (sampleTransform itemNoYear (Some master1965) 1)"



definition unauthorizedOnce :: "nat \<Rightarrow> bool Response" where
  "unauthorizedOnce n = (if n = 1 then ErrorResponse 401 (Body None) else Success True)"

definition alwaysStatus :: "nat \<Rightarrow> nat \<Rightarrow> bool Response" where
  "alwaysStatus status n = ErrorResponse status (Body None)"

definition emptyBodyOnSecond :: "nat \<Rightarrow> bool Response" where
  "emptyBodyOnSecond n = (if n = 2 then ErrorResponse 500 NoBody else ErrorResponse 404 (Body None))"

section \<open>Auxiliary notions\<close>

text \<open>
  A string in which the only white space is single spaces, and a string that neither
  starts nor ends with white space: what \<open>collapseSpaces\<close> and \<open>trim\<close> produce.
\<close>

fun spaced :: "jsstring \<Rightarrow> bool" where
  "spaced [] = True"
| "spaced [c] = (isSpace c \<longrightarrow> c = 32)"
| "spaced (c # d # cs) = ((isSpace c \<longrightarrow> c = 32 \<and> \<not> isSpace d) \<and> spaced (d # cs))"

definition trimmed :: "jsstring \<Rightarrow> bool" where
  "trimmed s = (s = [] \<or> (\<not> isSpace (hd s) \<and> \<not> isSpace (last s)))"

text \<open>
  A phase of a run throws to the run's handler: the connection test fails, the
  collection fetch throws, the run is cancelled, the collection is empty, the enrichment
  throws, an enriched release is \<^verbatim>\<open>null\<close>, or the cache write fails.
\<close>

definition enrichedOf :: "Env \<Rightarrow> bool \<Rightarrow> DiscogsRelease option list \<Rightarrow> Thrown + Enriched list" where
  "enrichedOf env skipMasterData discogsReleases =
     (if skipMasterData then Inr (map (\<lambda>r. \<lparr>release = r, master = None\<rparr>) discogsReleases)
      else enrichOutcome env discogsReleases)"



text \<open>
  What attempt \<open>n\<close> of a request throws, and whether an answer makes the attempt throw a
  plain error, the kind after which p-retry tries again.
\<close>

definition thrownBy :: "(nat \<Rightarrow> 'a Response) \<Rightarrow> nat \<Rightarrow> Failure" where
  "thrownBy responses n =
     (case responseInterceptor (responses n) of Inl e \<Rightarrow> e | Inr d \<Rightarrow> TypeError)"

definition throwsPlainError :: "'a Response \<Rightarrow> bool" where
  "throwsPlainError r =
     (case responseInterceptor r of
        Inl (PlainError m) \<Rightarrow> True
      | Inl TypeError \<Rightarrow> False
      | Inr d \<Rightarrow> False)"

section \<open>Text cleaning: properties\<close>

lemma replaceAll_no_bracket:
  assumes "\<And>s. s \<noteq> [] \<Longrightarrow> hd s \<noteq> 91 \<Longrightarrow> m s = None"
  shows "91 \<notin> set s \<Longrightarrow> replaceAll m s = s"
  by (induction s) (auto simp: assms)

lemma tagRef_head: "s \<noteq> [] \<Longrightarrow> hd s \<noteq> 91 \<Longrightarrow> tagRef l s = None"
  by (auto simp: tagRef_def split: list.splits)
lemma anyRef_head: "s \<noteq> [] \<Longrightarrow> hd s \<noteq> 91 \<Longrightarrow> anyRef s = None"
  by (auto simp: anyRef_def split: list.splits)
lemma emptyBrackets_head: "s \<noteq> [] \<Longrightarrow> hd s \<noteq> 91 \<Longrightarrow> emptyBrackets s = None"
  by (auto simp: emptyBrackets_def split: list.splits)

lemma cleanDiscogsMarkup_no_bracket: "91 \<notin> set s \<Longrightarrow> cleanDiscogsMarkup s = s"
  by (simp add: cleanDiscogsMarkup_def replaceAll_no_bracket tagRef_head anyRef_head emptyBrackets_head)

lemma keptChar_not_bracket: "keptChar c \<Longrightarrow> c \<noteq> 91"
  by (auto simp: keptChar_def isWordChar_def isSpace_def)

lemma collapseSpaces_set: "set (collapseSpaces s) \<subseteq> insert 32 (set s)"
proof (induction s rule: collapseSpaces.induct)
  case 1 show ?case by simp
next
  case (2 c cs)
  have "set (dropWhile isSpace cs) \<subseteq> set cs" by (rule set_dropWhileD[THEN subsetI]) 
  with 2 show ?case by (auto split: if_splits)
qed

lemma collapseSpaces_length: "length (collapseSpaces s) \<le> length s"
proof (induction s rule: collapseSpaces.induct)
  case 1 show ?case by simp
next
  case (2 c cs)
  have "length (dropWhile isSpace cs) \<le> length cs" by (rule length_dropWhile_le)
  with 2 show ?case by (auto split: if_splits)
qed

lemma spaced_collapse: "spaced (collapseSpaces s)"
proof (induction s rule: collapseSpaces.induct)
  case 1 show ?case by simp
next
  case (2 c cs)
  show ?case
  proof (cases "isSpace c")
    case True
    define r where "r = dropWhile isSpace cs"
    have ih: "spaced (collapseSpaces r)" using 2 True by (simp add: r_def)
    have step: "collapseSpaces (c # cs) = 32 # collapseSpaces r" using True by (simp add: r_def)
    show ?thesis
    proof (cases r)
      case Nil then show ?thesis unfolding step by simp
    next
      case (Cons d ds)
      have "r \<noteq> []" using Cons by simp
      then have "\<not> isSpace (hd r)" unfolding r_def by (rule hd_dropWhile)
      then have nd: "\<not> isSpace d" using Cons by simp
      from ih Cons nd show ?thesis unfolding step by simp
    qed
  next
    case False
    have ih: "spaced (collapseSpaces cs)" using 2 False by simp
    show ?thesis using False ih by (cases "collapseSpaces cs") auto
  qed
qed

lemma collapse_spaced: "spaced s \<Longrightarrow> collapseSpaces s = s"
proof (induction s rule: spaced.induct)
  case 1 show ?case by simp
next
  case (2 c) then show ?case by simp
next
  case (3 c d cs)
  then show ?case by auto
qed

lemma trim_trimmed: "trimmed s \<Longrightarrow> trim s = s"
proof (cases s)
  case Nil then show ?thesis by (simp add: trim_def)
next
  case (Cons a as)
  assume "trimmed s"
  with Cons have h: "\<not> isSpace a" and l: "\<not> isSpace (last s)" by (auto simp: trimmed_def)
  have 1: "dropWhile isSpace s = s" using Cons h by simp
  have "s = butlast s @ [last s]" using Cons by simp
  then have "rev s = rev (butlast s @ [last s])" by simp
  then have r: "rev s = last s # rev (butlast s)" by simp
  have 2: "dropWhile isSpace (rev s) = rev s" by (subst r, subst r) (simp add: l)
  show ?thesis by (simp add: trim_def 1 2)
qed

lemma trimmed_dropWhile_rev: "trimmed (rev (dropWhile isSpace (rev (dropWhile isSpace s))))"
proof -
  define u where "u = dropWhile isSpace s"
  define v where "v = dropWhile isSpace (rev u)"
  show ?thesis
  proof (cases "v = []")
    case True then show ?thesis by (simp add: trimmed_def u_def v_def)
  next
    case False
    then have hv: "\<not> isSpace (hd v)" unfolding v_def by (rule hd_dropWhile)
    have lv: "last (rev v) = hd v" using False by (simp add: last_rev)
    from False obtain w where w: "rev u = w @ v" unfolding v_def
      by (metis takeWhile_dropWhile_id)
    then have u: "u = rev v @ rev w" by (metis rev_append rev_rev_ident)
    have "u \<noteq> []" using u False by simp
    then have "\<not> isSpace (hd u)" unfolding u_def by (rule hd_dropWhile)
    moreover have "hd u = hd (rev v)" using u False by simp
    ultimately have "\<not> isSpace (hd (rev v))" by simp
    with hv lv show ?thesis by (simp add: trimmed_def u_def v_def)
  qed
qed

lemma trimmed_trim: "trimmed (trim s)"
  unfolding trim_def by (rule trimmed_dropWhile_rev)

lemma collapse_last:
  "s \<noteq> [] \<Longrightarrow> \<not> isSpace (last s) \<Longrightarrow>
   collapseSpaces s \<noteq> [] \<and> \<not> isSpace (last (collapseSpaces s))"
proof (induction s rule: collapseSpaces.induct)
  case 1 then show ?case by simp
next
  case (2 c cs)
  show ?case
  proof (cases "isSpace c")
    case True
    define r where "r = dropWhile isSpace cs"
    have cs: "cs \<noteq> []" using 2(4) True by auto
    then have lcs: "\<not> isSpace (last cs)" using 2(4) by simp
    have "last cs \<in> set cs" using cs by simp
    then have rne: "r \<noteq> []" unfolding r_def using lcs by (auto simp: dropWhile_eq_Nil_conv)
    have "cs = takeWhile isSpace cs @ r" by (simp add: r_def)
    then have "last cs = last r" using rne by (metis last_appendR)
    then have "\<not> isSpace (last r)" using lcs by simp
    with 2(1) True rne have "collapseSpaces r \<noteq> [] \<and> \<not> isSpace (last (collapseSpaces r))"
      by (simp add: r_def)
    then show ?thesis using True by (simp add: r_def)
  next
    case False
    show ?thesis
    proof (cases "cs = []")
      case True then show ?thesis using False by simp
    next
      case ne: False
      then have "\<not> isSpace (last cs)" using 2(4) by simp
      with 2(2) False ne have "collapseSpaces cs \<noteq> [] \<and> \<not> isSpace (last (collapseSpaces cs))"
        by simp
      then show ?thesis using False by simp
    qed
  qed
qed

lemma trimmed_collapse: "trimmed s \<Longrightarrow> trimmed (collapseSpaces s)"
proof (cases s)
  case Nil then show ?thesis by (simp add: trimmed_def)
next
  case (Cons a as)
  assume "trimmed s"
  with Cons have h: "\<not> isSpace a" and l: "\<not> isSpace (last s)" by (auto simp: trimmed_def)
  have "s \<noteq> []" using Cons by simp
  from collapse_last[OF this l] have "\<not> isSpace (last (collapseSpaces s))" by simp
  moreover have "hd (collapseSpaces s) = a" using Cons h by simp
  ultimately show ?thesis using h by (simp add: trimmed_def)
qed

lemma trim_set: "set (trim s) \<subseteq> set s"
proof -
  have a: "set (dropWhile isSpace s) \<subseteq> set s" by (auto dest: set_dropWhileD)
  have "set (dropWhile isSpace (rev (dropWhile isSpace s))) \<subseteq> set (rev (dropWhile isSpace s))"
    by (auto dest: set_dropWhileD)
  with a show ?thesis by (auto simp: trim_def)
qed

lemma trim_length: "length (trim s) \<le> length s"
proof -
  have "length (dropWhile isSpace (rev (dropWhile isSpace s))) \<le> length (rev (dropWhile isSpace s))"
    by (rule length_dropWhile_le)
  moreover have "length (dropWhile isSpace s) \<le> length s" by (rule length_dropWhile_le)
  ultimately show ?thesis by (simp add: trim_def)
qed

lemma keptChar_space: "keptChar 32"
  by (simp add: keptChar_def isSpace_def)

lemma cleanText_kept:
  assumes k: "\<forall>c\<in>set x. keptChar c" and n: "length x \<le> 1000"
  shows "cleanText x = collapseSpaces (trim x)"
proof (cases "x = []")
  case True then show ?thesis by (simp add: cleanText_def trim_def)
next
  case False
  have nb: "91 \<notin> set x" using k keptChar_not_bracket by blast
  have m: "cleanDiscogsMarkup x = x" using nb by (rule cleanDiscogsMarkup_no_bracket)
  let ?c = "collapseSpaces (trim x)"
  have "set ?c \<subseteq> insert 32 (set (trim x))" by (rule collapseSpaces_set)
  also have "\<dots> \<subseteq> insert 32 (set x)" using trim_set by auto
  finally have "\<forall>c\<in>set ?c. keptChar c" using k keptChar_space by auto
  then have f: "stripSpecial ?c = ?c" by (simp add: stripSpecial_def)
  have "length ?c \<le> length (trim x)" by (rule collapseSpaces_length)
  also have "\<dots> \<le> length x" by (rule trim_length)
  finally have "length ?c \<le> 1000" using n by simp
  then have t: "take 1000 ?c = ?c" by simp
  show ?thesis using False by (simp add: cleanText_def m f t)
qed

lemma cleanText_stable:
  assumes k: "\<forall>c\<in>set x. keptChar c" and n: "length x \<le> 1000"
  shows "cleanText (cleanText x) = cleanText x"
proof -
  let ?c = "collapseSpaces (trim x)"
  have c: "cleanText x = ?c" using k n by (rule cleanText_kept)
  have "set ?c \<subseteq> insert 32 (set (trim x))" by (rule collapseSpaces_set)
  also have "\<dots> \<subseteq> insert 32 (set x)" using trim_set by auto
  finally have kc: "\<forall>c\<in>set ?c. keptChar c" using k keptChar_space by auto
  have "length ?c \<le> length (trim x)" by (rule collapseSpaces_length)
  also have "\<dots> \<le> length x" by (rule trim_length)
  finally have nc: "length ?c \<le> 1000" using n by simp
  have "cleanText ?c = collapseSpaces (trim ?c)" using kc nc by (rule cleanText_kept)
  also have "trim ?c = ?c" by (rule trim_trimmed) (rule trimmed_collapse, rule trimmed_trim)
  also have "collapseSpaces ?c = ?c" by (rule collapse_spaced) (rule spaced_collapse)
  finally show ?thesis by (simp add: c)
qed

lemma cleanText_kept_out: "\<forall>c\<in>set (cleanText x). keptChar c"
  by (auto simp: cleanText_def stripSpecial_def dest: in_set_takeD)

lemma cleanText_length: "length (cleanText x) \<le> 1000"
  by (simp add: cleanText_def)

lemmas clean_defs = js_def cleanText_def cleanDiscogsMarkup_def tagRef_def anyRef_def
  emptyBrackets_def trim_def isSpace_def stripSpecial_def keptChar_def isWordChar_def

text \<open>
  Claim C4 says that cleaning is idempotent on every string. It is not: the special
  characters are deleted after the white space has been collapsed and the ends trimmed,
  so deleting \<^verbatim>\<open>#\<close> from \<^verbatim>\<open>a # b\<close> leaves two spaces, which a second cleaning
  collapses.
\<close>

theorem cleanText_not_idempotent:
  "cleanText (cleanText (js ''a # b'')) \<noteq> cleanText (js ''a # b'')"
proof -
  have 1: "cleanText (js ''a # b'') = js ''a  b''" by (simp add: clean_defs)
  have 2: "cleanText (js ''a  b'') = js ''a b''" by (simp add: clean_defs)
  have 3: "js ''a b'' \<noteq> js ''a  b''" by (simp add: js_def)
  show ?thesis by (simp only: 1 2 3 not_False_eq_True)
qed

text \<open>
  Claim C4, amended: cleaning a string \<open>x\<close> a second time changes nothing exactly when
  the first cleaning left no white space other than single spaces between other
  characters, that is when \<open>cleanText x\<close> has no white space at its ends and none but
  single spaces inside. This is the case for \<^verbatim>\<open>[l=Blue Note]\<close> and \<^verbatim>\<open>a#b\<close>, where
  markup and a special character are removed, and not for \<^verbatim>\<open>a # b\<close>. On every string
  the second cleaning gives a fixed point.
\<close>

theorem cleanText_idempotent_iff:
  "(cleanText (cleanText x) = cleanText x \<longleftrightarrow> spaced (cleanText x) \<and> trimmed (cleanText x))
   \<and> cleanText (cleanText (cleanText y)) = cleanText (cleanText y)"
proof (intro conjI)
  let ?y = "cleanText x"
  have c: "cleanText ?y = collapseSpaces (trim ?y)"
    by (rule cleanText_kept) (rule cleanText_kept_out, rule cleanText_length)
  show "cleanText ?y = ?y \<longleftrightarrow> spaced ?y \<and> trimmed ?y"
  proof
    assume e: "cleanText ?y = ?y"
    have "spaced (collapseSpaces (trim ?y))" by (rule spaced_collapse)
    moreover have "trimmed (collapseSpaces (trim ?y))"
      by (rule trimmed_collapse) (rule trimmed_trim)
    ultimately show "spaced ?y \<and> trimmed ?y" using c e by simp
  next
    assume st: "spaced ?y \<and> trimmed ?y"
    then have "trim ?y = ?y" by (simp add: trim_trimmed)
    moreover have "collapseSpaces ?y = ?y" using st by (simp add: collapse_spaced)
    ultimately show "cleanText ?y = ?y" using c by simp
  qed
next
  show "cleanText (cleanText (cleanText y)) = cleanText (cleanText y)"
    by (rule cleanText_stable) (rule cleanText_kept_out, rule cleanText_length)
qed

theorem cleanText_idempotent_iff_witness:
  "cleanText (js ''[l=Blue Note]'') = js ''Blue Note''
   \<and> spaced (js ''Blue Note'') \<and> trimmed (js ''Blue Note'')
   \<and> cleanText (cleanText (js ''[l=Blue Note]'')) = cleanText (js ''[l=Blue Note]'')
   \<and> cleanText (js ''a#b'') = js ''ab''
   \<and> spaced (js ''ab'') \<and> trimmed (js ''ab'')
   \<and> cleanText (cleanText (js ''a#b'')) = cleanText (js ''a#b'')
   \<and> cleanText (js ''a # b'') = js ''a  b''
   \<and> spaced (js ''a  b'') = False
   \<and> cleanText (cleanText (cleanText (js ''a # b''))) = cleanText (cleanText (js ''a # b''))"
proof -
  have 1: "cleanText (js ''[l=Blue Note]'') = js ''Blue Note''" by (simp add: clean_defs)
  have 2: "spaced (js ''Blue Note'')" by (simp add: js_def isSpace_def)
  have 3: "trimmed (js ''Blue Note'')" by (simp add: js_def trimmed_def isSpace_def)
  have 4: "cleanText (js ''a#b'') = js ''ab''" by (simp add: clean_defs)
  have 5: "spaced (js ''ab'')" by (simp add: js_def isSpace_def)
  have 6: "trimmed (js ''ab'')" by (simp add: js_def trimmed_def isSpace_def)
  have 7: "cleanText (js ''a # b'') = js ''a  b''" by (simp add: clean_defs)
  have 8: "spaced (js ''a  b'') = False" by (simp add: js_def isSpace_def)
  from cleanText_idempotent_iff [of "js ''[l=Blue Note]''" "js ''a # b''"] 1 2 3
  have 9: "cleanText (cleanText (js ''[l=Blue Note]'')) = cleanText (js ''[l=Blue Note]'')"
    and 10: "cleanText (cleanText (cleanText (js ''a # b''))) = cleanText (cleanText (js ''a # b''))"
    by simp_all
  from cleanText_idempotent_iff [of "js ''a#b''" "js ''a # b''"] 4 5 6
  have 11: "cleanText (cleanText (js ''a#b'')) = cleanText (js ''a#b'')"
    by simp
  from 1 2 3 9 4 5 6 11 7 8 10 show ?thesis by blast
qed

section \<open>Year resolution: properties\<close>

lemma show_nat_nonempty: "show_nat n \<noteq> []"
  by (subst show_nat.simps) simp

lemma toString_nonempty: "toString i \<noteq> []"
  by (simp add: toString_def show_nat_nonempty)

lemma recordedIn_nonempty: "recordedIn s = Some d \<Longrightarrow> d \<noteq> []"
  by (auto simp: recordedIn_def Let_def split: option.splits if_splits)

lemma firstMatch_recordedIn_nonempty: "firstMatch recordedIn s = Some d \<Longrightarrow> d \<noteq> []"
  by (induction s) (auto dest: recordedIn_nonempty split: option.splits)

lemma recordedInNotes_nonempty: "recordedInNotes r = Some d \<Longrightarrow> d \<noteq> []"
  by (auto simp: recordedInNotes_def dest: firstMatch_recordedIn_nonempty split: if_splits)

lemma releaseDate_nonempty: "releaseDate r \<noteq> []"
  by (simp add: releaseDate_def toString_nonempty js_def)

lemma year_master_positive:
  "m_year m = Some y \<Longrightarrow> 0 < y \<Longrightarrow> transformDiscogsToVinylRecord_year r (Some m) = toString y"
  by (simp add: transformDiscogsToVinylRecord_year_def masterYear_def truthy_num_def truthy_str_def
      toString_nonempty)

lemma year_master_without_year:
  "m_year m = None \<or> (m_year m = Some y \<and> y \<le> 0) \<Longrightarrow>
   transformDiscogsToVinylRecord_year r (Some m) = releaseDate r"
  by (auto simp: transformDiscogsToVinylRecord_year_def masterYear_def truthy_num_def truthy_str_def
      releaseDate_nonempty)

lemma year_notes:
  "recordedInNotes r = Some d \<Longrightarrow> transformDiscogsToVinylRecord_year r None = d"
  by (simp add: transformDiscogsToVinylRecord_year_def extractRecordingDate_def truthy_str_def
      recordedInNotes_nonempty)

lemma year_own:
  "recordedInNotes r = None \<Longrightarrow> rel_year r = Some y \<Longrightarrow> y \<noteq> 0 \<Longrightarrow>
   transformDiscogsToVinylRecord_year r None = toString y"
  by (simp add: transformDiscogsToVinylRecord_year_def extractRecordingDate_def truthy_str_def
      truthy_num_def toString_nonempty)

lemma year_fallback:
  "recordedInNotes r = None \<Longrightarrow> rel_year r = None \<or> rel_year r = Some 0 \<Longrightarrow>
   transformDiscogsToVinylRecord_year r None = releaseDate r"
  by (auto simp: transformDiscogsToVinylRecord_year_def extractRecordingDate_def truthy_str_def
      truthy_num_def releaseDate_nonempty)

lemmas year_defs = transformDiscogsToVinylRecord_year_def extractRecordingDate_def
  recordedInNotes_def recordedIn_def masterYear_def releaseDate_def releaseData_year_def
  truthy_str_def truthy_num_def toString_def show_nat.simps canonicalize_def isDigit_def
  spec_year_def Let_def

text \<open>
  Claim C3 gives the year as the master's positive year, else the item's own release
  year, else "Unknown". When no master is passed, the code first looks for a recording
  date in the item's notes: a release of 1970 whose notes say
  \<^verbatim>\<open>Recorded in May 1957\<close> gets the year \<^verbatim>\<open>May 1957\<close>.
\<close>

theorem year_not_release_year:
  "transformDiscogsToVinylRecord_year notedRelease None \<noteq> spec_year notedRelease None"
proof -
  have 1: "transformDiscogsToVinylRecord_year notedRelease None = js ''May 1957''"
    by (simp add: notedRelease_def year_defs clean_defs)
  have 2: "spec_year notedRelease None = js ''1970''"
    by (simp add: notedRelease_def year_defs js_def)
  have 3: "js ''May 1957'' \<noteq> js ''1970''" by (simp add: js_def)
  show ?thesis by (simp only: 1 2 3 not_False_eq_True)
qed

text \<open>
  Claim C3, amended. With a master: the master's year as a string when it is present and
  positive; otherwise the item's release date, which is the year of
  \<^verbatim>\<open>basic_information\<close> (of the release itself when it carries none) as a string
  when that is present and not zero, and "Unknown" otherwise. Without a master: the date
  that the item's notes give after \<^verbatim>\<open>recorded in\<close> (a word and four digits) when
  there is one; otherwise the release's own year as a string when it is present and not
  zero; otherwise the item's release date as above.
\<close>

theorem year_resolution:
  "(m_year m1 = Some y1 \<and> 0 < y1 \<longrightarrow>
      transformDiscogsToVinylRecord_year r1 (Some m1) = toString y1)
   \<and> (m_year m2 = None \<or> (m_year m2 = Some y2 \<and> y2 \<le> 0) \<longrightarrow>
      transformDiscogsToVinylRecord_year r2 (Some m2) = releaseDate r2)
   \<and> (recordedInNotes r3 = Some d \<longrightarrow> transformDiscogsToVinylRecord_year r3 None = d)
   \<and> (recordedInNotes r4 = None \<and> rel_year r4 = Some y4 \<and> y4 \<noteq> 0 \<longrightarrow>
      transformDiscogsToVinylRecord_year r4 None = toString y4)
   \<and> (recordedInNotes r5 = None \<and> (rel_year r5 = None \<or> rel_year r5 = Some 0) \<longrightarrow>
      transformDiscogsToVinylRecord_year r5 None = releaseDate r5)
   \<and> releaseDate r6 =
       (case releaseData_year r6 of
          Some y \<Rightarrow> if y = 0 then js ''Unknown'' else toString y
        | None \<Rightarrow> js ''Unknown'')"
proof (intro conjI impI)
  assume "m_year m1 = Some y1 \<and> 0 < y1"
  then show "transformDiscogsToVinylRecord_year r1 (Some m1) = toString y1"
    by (simp add: year_master_positive)
next
  assume "m_year m2 = None \<or> (m_year m2 = Some y2 \<and> y2 \<le> 0)"
  then show "transformDiscogsToVinylRecord_year r2 (Some m2) = releaseDate r2"
    by (rule year_master_without_year)
next
  assume "recordedInNotes r3 = Some d"
  then show "transformDiscogsToVinylRecord_year r3 None = d" by (rule year_notes)
next
  assume "recordedInNotes r4 = None \<and> rel_year r4 = Some y4 \<and> y4 \<noteq> 0"
  then show "transformDiscogsToVinylRecord_year r4 None = toString y4"
    by (simp add: year_own)
next
  assume "recordedInNotes r5 = None \<and> (rel_year r5 = None \<or> rel_year r5 = Some 0)"
  then show "transformDiscogsToVinylRecord_year r5 None = releaseDate r5"
    by (simp add: year_fallback)
next
  show "releaseDate r6 =
       (case releaseData_year r6 of
          Some y \<Rightarrow> if y = 0 then js ''Unknown'' else toString y
        | None \<Rightarrow> js ''Unknown'')"
    by (simp add: releaseDate_def truthy_num_def split: option.splits)
qed

theorem year_resolution_witness:
  "m_year master1965 = Some 1965
   \<and> transformDiscogsToVinylRecord_year item1970 (Some master1965) = js ''1965''
   \<and> m_year masterYear0 = Some 0
   \<and> transformDiscogsToVinylRecord_year item1970 (Some masterYear0) = js ''1970''
   \<and> recordedInNotes notedRelease = Some (js ''May 1957'')
   \<and> transformDiscogsToVinylRecord_year notedRelease None = js ''May 1957''
   \<and> recordedInNotes item1970 = None \<and> rel_year item1970 = Some 1970
   \<and> transformDiscogsToVinylRecord_year item1970 None = js ''1970''
   \<and> recordedInNotes itemNoYear = None \<and> rel_year itemNoYear = None
   \<and> transformDiscogsToVinylRecord_year itemNoYear None = js ''Unknown''"
proof -
  note th = year_resolution [of master1965 1965 item1970 masterYear0 0 item1970 notedRelease
      "js ''May 1957''" item1970 1970 itemNoYear item1970]
  have a: "m_year master1965 = Some 1965" by (simp add: master1965_def)
  have b: "m_year masterYear0 = Some 0" by (simp add: masterYear0_def)
  have c: "recordedInNotes notedRelease = Some (js ''May 1957'')"
    by (simp add: notedRelease_def year_defs clean_defs)
  have d: "recordedInNotes item1970 = None" by (simp add: item1970_def recordedInNotes_def truthy_str_def)
  have e: "rel_year item1970 = Some 1970" by (simp add: item1970_def)
  have f: "recordedInNotes itemNoYear = None" by (simp add: itemNoYear_def recordedInNotes_def truthy_str_def)
  have g: "rel_year itemNoYear = None" by (simp add: itemNoYear_def)
  have t1: "toString 1965 = js ''1965''" by (simp add: year_defs js_def)
  have t2: "toString 1970 = js ''1970''" by (simp add: year_defs js_def)
  have r1: "releaseDate item1970 = js ''1970''" by (simp add: item1970_def year_defs js_def)
  have r2: "releaseDate itemNoYear = js ''Unknown''" by (simp add: itemNoYear_def year_defs)
  from th a have 1: "transformDiscogsToVinylRecord_year item1970 (Some master1965) = js ''1965''"
    by (simp add: t1)
  from th b have 2: "transformDiscogsToVinylRecord_year item1970 (Some masterYear0) = js ''1970''"
    by (simp add: r1)
  from th c have 3: "transformDiscogsToVinylRecord_year notedRelease None = js ''May 1957''"
    by blast
  from th d e have 4: "transformDiscogsToVinylRecord_year item1970 None = js ''1970''"
    by (simp add: t2)
  from th f g have 5: "transformDiscogsToVinylRecord_year itemNoYear None = js ''Unknown''"
    by (simp add: r2)
  from a b c d e f g 1 2 3 4 5 show ?thesis by blast
qed

section \<open>Validation and the orchestrator: lemmas\<close>

lemma validate_iff_present: "validateVinylRecord r = requiredFieldsPresent r"
  by (auto simp: validateVinylRecord_def requiredFieldsPresent_def present_def truthy_str_def
      split: option.splits)

lemma filterValidRecords_present: "filterValidRecords rs = filter requiredFieldsPresent rs"
  unfolding filterValidRecords_def by (rule filter_cong) (simp_all add: validate_iff_present)

lemma filter_length_lt:
  "length (filter P xs) \<noteq> length xs \<longleftrightarrow> length (filter P xs) < length xs"
  using length_filter_le [of P xs] by arith



lemma tac_fst:
  "transformEach (transformDiscogsToVinylRecord env) (nullReadMessage env) es 0 = Inr T \<Longrightarrow>
   fst (transformAndCache env es s) =
     (if cacheWrite env = WriteOk
      then Inr (filterValidRecords T, durationTime env - startTime env)
      else Inl (ErrorObj (js ''Failed to cache collection data'')))"
  by (cases "cacheWrite env") (simp_all add: transformAndCache_def cacheCollection_def Let_def)


lemma tac_errors:
  "transformEach (transformDiscogsToVinylRecord env) (nullReadMessage env) es 0 = Inr T \<Longrightarrow>
   run_errors (snd (transformAndCache env es s)) =
     run_errors s @
     (if length (filterValidRecords T) < length T
      then [invalidMessage (length T - length (filterValidRecords T))] else [])"
  by (cases "cacheWrite env")
     (simp_all add: transformAndCache_def cacheCollection_def Let_def onProgress_def
        onProgressComplete_def filterValidRecords_def filter_length_lt)


lemma tac_store:
  "transformEach (transformDiscogsToVinylRecord env) (nullReadMessage env) es 0 = Inr T \<Longrightarrow>
   run_store (snd (transformAndCache env es s)) =
     snd (cacheCollection (cacheTime env) (cacheWrite env) (filterValidRecords T)
            (durationTime env - startTime env)
            (run_errors (snd (transformAndCache env es s))) (run_store s))"
  by (cases "cacheWrite env")
     (simp_all add: transformAndCache_def cacheCollection_def Let_def onProgress_def
        onProgressComplete_def)




lemma syncTry_reaches_transform:
  assumes "ct_success (testConnection env)" "getAllUserCollection env = Inr rels"
    "\<not> cancelRequested env" "rels \<noteq> []" "enrichedOf env skip rels = Inr es"
  shows "\<exists>s. syncTry env skip (initialRun st) = transformAndCache env es s \<and> run_errors s = []
           \<and> run_store s = st"
  using assms
  by (auto simp: syncTry_def enrichedOf_def initialRun_def Let_def onProgress_def called_def
      split: if_splits)

lemma syncTry_empty_collection:
  assumes "ct_success (testConnection env)" "getAllUserCollection env = Inr []"
  shows "\<exists>s. syncTry env skip (initialRun st) =
            (Inl (ErrorObj (if cancelRequested env then js ''Sync cancelled by user''
                            else js ''No releases found in your Discogs collection'')), s)
          \<and> run_errors s = [] \<and> run_store s = st"
  using assms
  by (auto simp: syncTry_def initialRun_def Let_def onProgress_def called_def)

lemma readDecimal_snoc: "readDecimal (s @ [c]) = 10 * readDecimal s + (c - 48)"
  by (simp add: readDecimal_def)

lemma readDecimal_show_nat: "readDecimal (show_nat n) = n"
proof (induction n rule: show_nat.induct)
  case (1 n)
  show ?case
  proof (cases "n < 10")
    case True
    then show ?thesis by (subst show_nat.simps) (simp add: readDecimal_def)
  next
    case False
    with 1 have ih: "readDecimal (show_nat (n div 10)) = n div 10" by simp
    have "show_nat n = show_nat (n div 10) @ [48 + n mod 10]"
      using False by (subst show_nat.simps) simp
    then show ?thesis by (simp add: readDecimal_snoc ih)
  qed
qed

lemma syncFromDiscogs_thrown:
  "syncTry env skip (initialRun st) = (Inl t, s) \<Longrightarrow>
   syncFromDiscogs env skip False st = Inr (syncCatch env t s)"
  by (simp add: syncFromDiscogs_def)

lemma syncFromDiscogs_completed:
  "syncTry env skip (initialRun st) = (Inr (v, d), s) \<Longrightarrow>
   syncFromDiscogs env skip False st =
     Inr \<lparr>out_records = v,
          out_result = \<lparr>success = True, recordsProcessed = length v,
                         errors = run_errors s, duration = d, fromCache = False\<rparr>,
          out_events = run_events s, out_store = run_store s, out_calls = run_calls s\<rparr>"
  by (simp add: syncFromDiscogs_def)

lemma syncCatch_result:
  "success (out_result (syncCatch env t s)) = False
   \<and> errors (out_result (syncCatch env t s)) = run_errors s @ [errorMessageOf t]
   \<and> out_store (syncCatch env t s) = run_store s
   \<and> out_calls (syncCatch env t s) = run_calls s
   \<and> out_events (syncCatch env t s) =
       run_events s @ [\<lparr>phase = ErrorPhase, progress = 0,
                        message = js ''Sync failed: '' @ errorMessageOf t,
                        p_recordsProcessed = None, p_totalRecords = None\<rparr>]"
  by (simp add: syncCatch_def Let_def onProgress_def getCachedCollection_def
      split: option.splits)

lemma syncCatch_records:
  "out_records (syncCatch env t s) = (case collection (run_store s) of Some rs \<Rightarrow> rs | None \<Rightarrow> [])
   \<and> fromCache (out_result (syncCatch env t s)) =
       (case collection (run_store s) of Some rs \<Rightarrow> rs \<noteq> [] | None \<Rightarrow> False)"
  by (simp add: syncCatch_def Let_def onProgress_def getCachedCollection_def
      split: option.splits)

section \<open>The cache: properties\<close>

lemma findIndex_bound: "findIndex P xs = Some i \<Longrightarrow> i < length xs"
  by (induction xs arbitrary: i) (auto split: if_splits)










section \<open>The orchestrator: properties\<close>

text \<open>
  Claim C1: when \<^verbatim>\<open>getVinylRecords\<close> is called without \<^verbatim>\<open>forceRefresh\<close>, the
  metadata exists, its age is below the 24 hours of the TTL (86400000 ms) and the cached
  list is not empty, the call returns exactly the cached records with a result of
  \<^verbatim>\<open>success = true\<close>, \<^verbatim>\<open>fromCache = true\<close>, \<^verbatim>\<open>duration = 0\<close> and no errors, and
  calls no remote operation; the store is left as it was.
\<close>

theorem cache_hit_returns_cache:
  assumes "metadata st = Some m" and "validityTime env - lastSync m < 86400000"
    and "collection st = Some rs" and "rs \<noteq> []"
  shows "\<exists>out. getVinylRecords env False skipMasterData isSync st = Inr out
           \<and> out_records out = rs
           \<and> out_result out = \<lparr>success = True, recordsProcessed = length rs, errors = [],
                                 duration = 0, fromCache = True\<rparr>
           \<and> out_calls out = []
           \<and> out_store out = st"
  using assms
  by (simp add: getVinylRecords_def isCacheValid_def getMetadata_def getCachedCollection_def
      cacheHit_def CACHE_EXPIRY_HOURS_def)

theorem cache_hit_returns_cache_witness:
  "metadata cachedStore = Some \<lparr>lastSync = 1000, version = CACHE_VERSION, totalRecords = 1,
                                 syncDuration = 4000, md_errors = None\<rparr>
   \<and> validityTime sampleEnv - 1000 < 86400000
   \<and> collection cachedStore = Some [sampleRecord]
   \<and> (\<exists>out. getVinylRecords sampleEnv False False False cachedStore = Inr out
           \<and> out_records out = [sampleRecord]
           \<and> out_result out = \<lparr>success = True, recordsProcessed = 1, errors = [],
                                 duration = 0, fromCache = True\<rparr>
           \<and> out_calls out = []
           \<and> out_store out = cachedStore)"
proof -
  let ?m = "\<lparr>lastSync = 1000, version = CACHE_VERSION, totalRecords = 1,
             syncDuration = 4000, md_errors = None\<rparr>"
  have a: "metadata cachedStore = Some ?m" by (simp add: cachedStore_def)
  have b: "validityTime sampleEnv - lastSync ?m < 86400000" by (simp add: sampleEnv_def)
  have c: "collection cachedStore = Some [sampleRecord]" by (simp add: cachedStore_def)
  have d: "[sampleRecord] \<noteq> []" by simp
  from cache_hit_returns_cache [OF a b c d, of False False]
  have "\<exists>out. getVinylRecords sampleEnv False False False cachedStore = Inr out
           \<and> out_records out = [sampleRecord]
           \<and> out_result out = \<lparr>success = True, recordsProcessed = 1, errors = [],
                                 duration = 0, fromCache = True\<rparr>
           \<and> out_calls out = []
           \<and> out_store out = cachedStore" by simp
  with a b c show ?thesis by simp
qed






lemma sample_transformed:
  "transformEach (transformDiscogsToVinylRecord sampleEnv) (nullReadMessage sampleEnv)
     (map (\<lambda>r. \<lparr>release = r, master = Some master1965\<rparr>) [Some item1970, Some itemNoYear]) 0
   = Inr [sampleRecord, invalidRecord]"
  by (simp add: sampleEnv_def sampleRecord_def invalidRecord_def sampleTransform_def)

lemma sample_valid: "filter requiredFieldsPresent [sampleRecord, invalidRecord] = [sampleRecord]"
  by (simp add: sampleRecord_def invalidRecord_def sampleTransform_def requiredFieldsPresent_def
      present_def item1970_def itemNoYear_def toString_nonempty js_def year_master_positive
      master1965_def)

text \<open>
  Claim C7: \<^verbatim>\<open>filterValidRecords\<close> keeps exactly the records in which id, title,
  artist, year, label, a non-empty genre list, a cover reference and at least one track
  are present, in their order. In a run whose transformation yields the list
  \<open>transformed\<close>, the number of dropped records is put into the error list as the
  message "\<open>n\<close> records were invalid and filtered out", from which \<open>n\<close> can be read
  back, and the result carries it whether the cache write succeeds or fails. The dropped
  records go nowhere: a successful run returns the kept records only, and what the run
  writes to the cache is the list of the kept records, with their number in the metadata.
\<close>

theorem invalid_records_dropped_and_counted:
  "filterValidRecords records = filter requiredFieldsPresent records
   \<and> readDecimal (show_nat n) = n
   \<and> (ct_success (testConnection env) \<and> getAllUserCollection env = Inr rels
        \<and> \<not> cancelRequested env \<and> rels \<noteq> []
        \<and> enrichedOf env skipMasterData rels = Inr es
        \<and> transformEach (transformDiscogsToVinylRecord env) (nullReadMessage env) es 0
            = Inr transformed
        \<and> valid = filter requiredFieldsPresent transformed
        \<and> counted =
            (if length valid < length transformed
             then [show_nat (length transformed - length valid)
                   @ js '' records were invalid and filtered out'']
             else [])
      \<longrightarrow> (\<exists>out. syncFromDiscogs env skipMasterData False st = Inr out
             \<and> success (out_result out) = (cacheWrite env = WriteOk)
             \<and> errors (out_result out) =
                 counted
                 @ (if cacheWrite env = WriteOk then [] else [js ''Failed to cache collection data''])
             \<and> collection (out_store out) =
                 (if cacheWrite env = WriteOk \<or> cacheWrite env = MetadataWriteFailed
                  then Some valid else collection st)
             \<and> (cacheWrite env = WriteOk \<longrightarrow>
                  out_records out = valid
                  \<and> metadata (out_store out) =
                      Some \<lparr>lastSync = cacheTime env, version = CACHE_VERSION,
                            totalRecords = length valid,
                            syncDuration = durationTime env - startTime env,
                            md_errors = (if counted = [] then None else Some counted)\<rparr>)))"
proof (intro conjI impI)
  show "filterValidRecords records = filter requiredFieldsPresent records"
    by (rule filterValidRecords_present)
next
  show "readDecimal (show_nat n) = n" by (rule readDecimal_show_nat)
next
  assume h: "ct_success (testConnection env) \<and> getAllUserCollection env = Inr rels
        \<and> \<not> cancelRequested env \<and> rels \<noteq> []
        \<and> enrichedOf env skipMasterData rels = Inr es
        \<and> transformEach (transformDiscogsToVinylRecord env) (nullReadMessage env) es 0
            = Inr transformed
        \<and> valid = filter requiredFieldsPresent transformed
        \<and> counted =
            (if length valid < length transformed
             then [show_nat (length transformed - length valid)
                   @ js '' records were invalid and filtered out'']
             else [])"
  then obtain s0 where s0: "syncTry env skipMasterData (initialRun st) = transformAndCache env es s0"
    and e0: "run_errors s0 = []" and r0: "run_store s0 = st"
    using syncTry_reaches_transform [of env rels skipMasterData es st] by blast
  from h have T: "transformEach (transformDiscogsToVinylRecord env) (nullReadMessage env) es 0
      = Inr transformed" by simp
  from h have V: "filterValidRecords transformed = valid"
    by (simp add: filterValidRecords_present)
  let ?s = "snd (transformAndCache env es s0)"
  have errs: "run_errors ?s = counted"
    using h by (simp add: tac_errors [OF T] e0 V invalidMessage_def)
  have store: "run_store ?s =
      snd (cacheCollection (cacheTime env) (cacheWrite env) valid
             (durationTime env - startTime env) counted st)"
    using tac_store [OF T, of s0] by (simp add: V errs r0)
  show "\<exists>out. syncFromDiscogs env skipMasterData False st = Inr out
             \<and> success (out_result out) = (cacheWrite env = WriteOk)
             \<and> errors (out_result out) =
                 counted
                 @ (if cacheWrite env = WriteOk then [] else [js ''Failed to cache collection data''])
             \<and> collection (out_store out) =
                 (if cacheWrite env = WriteOk \<or> cacheWrite env = MetadataWriteFailed
                  then Some valid else collection st)
             \<and> (cacheWrite env = WriteOk \<longrightarrow>
                  out_records out = valid
                  \<and> metadata (out_store out) =
                      Some \<lparr>lastSync = cacheTime env, version = CACHE_VERSION,
                            totalRecords = length valid,
                            syncDuration = durationTime env - startTime env,
                            md_errors = (if counted = [] then None else Some counted)\<rparr>)"
  proof (cases "cacheWrite env = WriteOk")
    case True
    then have "fst (transformAndCache env es s0) = Inr (valid, durationTime env - startTime env)"
      by (simp add: tac_fst [OF T] V)
    then have "syncTry env skipMasterData (initialRun st)
        = (Inr (valid, durationTime env - startTime env), ?s)"
      using s0 by (metis prod.collapse)
    from syncFromDiscogs_completed [OF this] True errs store show ?thesis
      by (auto simp: cacheCollection_def)
  next
    case False
    then have "fst (transformAndCache env es s0) = Inl (ErrorObj (js ''Failed to cache collection data''))"
      by (simp add: tac_fst [OF T])
    then have "syncTry env skipMasterData (initialRun st)
        = (Inl (ErrorObj (js ''Failed to cache collection data'')), ?s)"
      using s0 by (metis prod.collapse)
    from syncFromDiscogs_thrown [OF this] False errs store
      syncCatch_result [of env "ErrorObj (js ''Failed to cache collection data'')" ?s]
    show ?thesis by (cases "cacheWrite env") (simp_all add: errorMessageOf_def cacheCollection_def)
  qed
qed

theorem invalid_records_dropped_and_counted_witness:
  "ct_success (testConnection sampleEnv)
   \<and> getAllUserCollection sampleEnv = Inr [Some item1970, Some itemNoYear]
   \<and> cancelRequested sampleEnv = False
   \<and> enrichedOf sampleEnv False [Some item1970, Some itemNoYear]
       = Inr (map (\<lambda>r. \<lparr>release = r, master = Some master1965\<rparr>) [Some item1970, Some itemNoYear])
   \<and> transformEach (transformDiscogsToVinylRecord sampleEnv) (nullReadMessage sampleEnv)
        (map (\<lambda>r. \<lparr>release = r, master = Some master1965\<rparr>) [Some item1970, Some itemNoYear]) 0
       = Inr [sampleRecord, invalidRecord]
   \<and> filter requiredFieldsPresent [sampleRecord, invalidRecord] = [sampleRecord]
   \<and> (\<exists>out. syncFromDiscogs sampleEnv False False emptyStore = Inr out
         \<and> success (out_result out) = True
         \<and> errors (out_result out) = [js ''1 records were invalid and filtered out'']
         \<and> out_records out = [sampleRecord]
         \<and> collection (out_store out) = Some [sampleRecord]
         \<and> map_option totalRecords (metadata (out_store out)) = Some 1)"
proof -
  let ?rels = "[Some item1970, Some itemNoYear]"
  let ?es = "map (\<lambda>r. \<lparr>release = r, master = Some master1965\<rparr>) ?rels"
  let ?counted = "[show_nat (length [sampleRecord, invalidRecord] - length [sampleRecord])
                   @ js '' records were invalid and filtered out'']"
  have a: "ct_success (testConnection sampleEnv)" by (simp add: sampleEnv_def)
  have b: "getAllUserCollection sampleEnv = Inr ?rels" by (simp add: sampleEnv_def)
  have c: "cancelRequested sampleEnv = False" by (simp add: sampleEnv_def)
  have d: "enrichedOf sampleEnv False ?rels = Inr ?es" by (simp add: enrichedOf_def sampleEnv_def)
  have w: "cacheWrite sampleEnv = WriteOk" by (simp add: sampleEnv_def)
  have m: "?counted = [js ''1 records were invalid and filtered out'']"
    by (simp add: show_nat.simps js_def)
  from invalid_records_dropped_and_counted
    [of "[]" 0 sampleEnv ?rels False ?es "[sampleRecord, invalidRecord]" "[sampleRecord]"
       ?counted emptyStore]
    a b c d sample_transformed sample_valid
  obtain out where o: "syncFromDiscogs sampleEnv False False emptyStore = Inr out"
    and 1: "success (out_result out) = (cacheWrite sampleEnv = WriteOk)"
    and 2: "errors (out_result out) =
                 ?counted
                 @ (if cacheWrite sampleEnv = WriteOk then [] else [js ''Failed to cache collection data''])"
    and 3: "collection (out_store out) =
                 (if cacheWrite sampleEnv = WriteOk \<or> cacheWrite sampleEnv = MetadataWriteFailed
                  then Some [sampleRecord] else collection emptyStore)"
    and 4: "cacheWrite sampleEnv = WriteOk \<longrightarrow>
                  out_records out = [sampleRecord]
                  \<and> metadata (out_store out) =
                      Some \<lparr>lastSync = cacheTime sampleEnv, version = CACHE_VERSION,
                            totalRecords = length [sampleRecord],
                            syncDuration = durationTime sampleEnv - startTime sampleEnv,
                            md_errors = (if ?counted = [] then None else Some ?counted)\<rparr>"
    by auto
  from 1 w have 5: "success (out_result out) = True" by simp
  from 2 w m have 6: "errors (out_result out) = [js ''1 records were invalid and filtered out'']"
    by simp
  from 3 w have 7: "collection (out_store out) = Some [sampleRecord]" by simp
  from 4 w have 8: "out_records out = [sampleRecord]"
    and 9: "map_option totalRecords (metadata (out_store out)) = Some 1" by simp_all
  from a b c d sample_transformed sample_valid o 5 6 7 8 9 show ?thesis by blast
qed







text \<open>
  Claim C10 says that a run whose fetch returns no release records the error
  \<^verbatim>\<open>'No releases found in your Discogs collection'\<close>. The cancellation test stands
  before the test for an empty collection: when the run was cancelled while the fetch was
  awaited, the only error recorded is \<^verbatim>\<open>'Sync cancelled by user'\<close>.
\<close>

theorem empty_collection_cancel_message:
  "ct_success (testConnection cancelledEmptyEnv)
   \<and> getAllUserCollection cancelledEmptyEnv = Inr []
   \<and> map_sum id (errors \<circ> out_result)
        (syncFromDiscogs cancelledEmptyEnv False False emptyStore) = Inr [js ''Sync cancelled by user'']
   \<and> js ''No releases found in your Discogs collection'' \<notin> set [js ''Sync cancelled by user'']"
  by (simp add: syncFromDiscogs_def syncTry_def syncCatch_def cancelledEmptyEnv_def sampleEnv_def
      initialRun_def Let_def onProgress_def called_def getCachedCollection_def emptyStore_def
      errorMessageOf_def js_def)

text \<open>
  Claim C10, amended: a run whose connection test succeeds and whose fetch returns no
  release is a failure and not an empty success: the store is left as it was, the result
  has \<^verbatim>\<open>success = false\<close>, the records returned are the cached ones (none when nothing
  is cached), and the error list holds one message:
  \<^verbatim>\<open>'No releases found in your Discogs collection'\<close>, or, when a cancellation was
  requested while the connection test or the fetch was awaited,
  \<^verbatim>\<open>'Sync cancelled by user'\<close>.
\<close>

theorem empty_collection_is_failure:
  "ct_success (testConnection env) \<and> getAllUserCollection env = Inr [] \<longrightarrow>
   (\<exists>out. syncFromDiscogs env skipMasterData False st = Inr out
      \<and> out_store out = st
      \<and> success (out_result out) = False
      \<and> errors (out_result out) =
          [if cancelRequested env then js ''Sync cancelled by user''
           else js ''No releases found in your Discogs collection'']
      \<and> out_records out = (case collection st of Some rs \<Rightarrow> rs | None \<Rightarrow> [])
      \<and> fromCache (out_result out) = (case collection st of Some rs \<Rightarrow> rs \<noteq> [] | None \<Rightarrow> False))"
proof
  assume "ct_success (testConnection env) \<and> getAllUserCollection env = Inr []"
  then obtain s where s: "syncTry env skipMasterData (initialRun st) =
            (Inl (ErrorObj (if cancelRequested env then js ''Sync cancelled by user''
                            else js ''No releases found in your Discogs collection'')), s)"
    and e: "run_errors s = []" and r: "run_store s = st"
    using syncTry_empty_collection [of env skipMasterData st] by blast
  from syncFromDiscogs_thrown [OF s] e r
    syncCatch_result [of env "ErrorObj (if cancelRequested env then js ''Sync cancelled by user''
                            else js ''No releases found in your Discogs collection'')" s]
    syncCatch_records [of env "ErrorObj (if cancelRequested env then js ''Sync cancelled by user''
                            else js ''No releases found in your Discogs collection'')" s]
  show "\<exists>out. syncFromDiscogs env skipMasterData False st = Inr out
      \<and> out_store out = st
      \<and> success (out_result out) = False
      \<and> errors (out_result out) =
          [if cancelRequested env then js ''Sync cancelled by user''
           else js ''No releases found in your Discogs collection'']
      \<and> out_records out = (case collection st of Some rs \<Rightarrow> rs | None \<Rightarrow> [])
      \<and> fromCache (out_result out) = (case collection st of Some rs \<Rightarrow> rs \<noteq> [] | None \<Rightarrow> False)"
    by (simp add: errorMessageOf_def)
qed

theorem empty_collection_is_failure_witness:
  "ct_success (testConnection emptyCollectionEnv)
   \<and> getAllUserCollection emptyCollectionEnv = Inr []
   \<and> (\<exists>out. syncFromDiscogs emptyCollectionEnv False False cachedStore = Inr out
      \<and> out_store out = cachedStore
      \<and> success (out_result out) = False
      \<and> errors (out_result out) = [js ''No releases found in your Discogs collection'']
      \<and> out_records out = [sampleRecord]
      \<and> fromCache (out_result out) = True)"
proof -
  have a: "ct_success (testConnection emptyCollectionEnv)"
    by (simp add: emptyCollectionEnv_def sampleEnv_def)
  have b: "getAllUserCollection emptyCollectionEnv = Inr []"
    by (simp add: emptyCollectionEnv_def sampleEnv_def)
  have c: "cancelRequested emptyCollectionEnv = False"
    by (simp add: emptyCollectionEnv_def sampleEnv_def)
  from empty_collection_is_failure [of emptyCollectionEnv False cachedStore] a b
  obtain out where "syncFromDiscogs emptyCollectionEnv False False cachedStore = Inr out
      \<and> out_store out = cachedStore
      \<and> success (out_result out) = False
      \<and> errors (out_result out) =
          [if cancelRequested emptyCollectionEnv then js ''Sync cancelled by user''
           else js ''No releases found in your Discogs collection'']
      \<and> out_records out = (case collection cachedStore of Some rs \<Rightarrow> rs | None \<Rightarrow> [])
      \<and> fromCache (out_result out) = (case collection cachedStore of Some rs \<Rightarrow> rs \<noteq> [] | None \<Rightarrow> False)"
    by blast
  with c have "syncFromDiscogs emptyCollectionEnv False False cachedStore = Inr out
      \<and> out_store out = cachedStore
      \<and> success (out_result out) = False
      \<and> errors (out_result out) = [js ''No releases found in your Discogs collection'']
      \<and> out_records out = [sampleRecord]
      \<and> fromCache (out_result out) = True"
    by (simp add: cachedStore_def)
  with a b show ?thesis by blast
qed

section \<open>Requests with retry: properties\<close>

lemma throwsPlainError_iff:
  "throwsPlainError r \<longleftrightarrow> (\<exists>m. responseInterceptor r = Inl (PlainError m))"
  by (simp add: throwsPlainError_def split: sum.splits Failure.splits)

lemma interceptor_plain:
  "throwsPlainError (responses n) \<Longrightarrow>
   responseInterceptor (responses n) = Inl (thrownBy responses n)
   \<and> thrownBy responses n \<noteq> TypeError"
  by (auto simp: throwsPlainError_iff thrownBy_def)

lemma interceptor_not_plain:
  "\<not> throwsPlainError r \<Longrightarrow> \<forall>m. responseInterceptor r \<noteq> Inl (PlainError m)"
  by (simp add: throwsPlainError_iff)

lemma interceptor_statuses:
  "throwsPlainError (ErrorResponse status body)
     \<longleftrightarrow> status = 401 \<or> status = 403 \<or> status = 404 \<or> body \<noteq> NoBody"
  by (cases body) (simp_all add: throwsPlainError_def responseInterceptor_def)

lemma interceptor_null_body:
  "status \<noteq> 401 \<and> status \<noteq> 403 \<and> status \<noteq> 404 \<Longrightarrow>
   responseInterceptor (ErrorResponse status NoBody) = Inl TypeError"
  by (simp add: responseInterceptor_def)

lemma makeRequest_unfold:
  "makeRequest responses =
     pRetryFrom retryOptions (\<lambda>n. responseInterceptor (responses n)) (Suc (Suc (Suc 0))) 1 [] []"
  by (simp add: makeRequest_def pRetry_def retryOptions_def numeral_3_eq_3 del: pRetryFrom.simps)

lemma backoffs:
  "backoff retryOptions 0 = 1000" "backoff retryOptions 1 = 2000" "backoff retryOptions 2 = 4000"
  "backoff retryOptions (Suc 0) = 2000" "backoff retryOptions (Suc (Suc 0)) = 4000"
  by (simp_all add: backoff_def retryOptions_def)

lemma attempt_numerals:
  "Suc (Suc 0) = 2" "Suc (Suc (Suc 0)) = 3" "Suc (Suc (Suc (Suc 0))) = 4"
  by simp_all

lemma retry_step:
  "run n = Inl e \<Longrightarrow> e \<noteq> TypeError \<Longrightarrow>
   pRetryFrom opts run (Suc r) n waits errs
     = pRetryFrom opts run r (Suc n) (waits @ [backoff opts (n - 1)]) (errs @ [e])"
  by (cases e) simp_all

lemma retry_stop:
  "\<forall>m. run n \<noteq> Inl (PlainError m) \<Longrightarrow>
   pRetryFrom opts run r n waits errs
     = ((case run n of Inr v \<Rightarrow> Inr v | Inl e \<Rightarrow> Inl (errs @ [e])), n, waits)"
  by (cases r; cases "run n") (auto split: Failure.splits)

lemma retry_last:
  "pRetryFrom opts run 0 n waits errs
     = ((case run n of Inr v \<Rightarrow> Inr v | Inl e \<Rightarrow> Inl (errs @ [e])), n, waits)"
  by (cases "run n") simp_all

lemma retry_fail3:
  assumes "run n = Inl e1" "e1 \<noteq> TypeError" "run (Suc n) = Inl e2" "e2 \<noteq> TypeError"
    "run (Suc (Suc n)) = Inl e3" "e3 \<noteq> TypeError" "run (Suc (Suc (Suc n))) = Inl e4"
  shows "pRetryFrom opts run (Suc (Suc (Suc 0))) n waits errs =
     (Inl (errs @ [e1, e2, e3, e4]), Suc (Suc (Suc n)),
      waits @ [backoff opts (n - 1), backoff opts n, backoff opts (Suc n)])"
proof -
  have "pRetryFrom opts run (Suc (Suc (Suc 0))) n waits errs
      = pRetryFrom opts run (Suc (Suc 0)) (Suc n) (waits @ [backoff opts (n - 1)]) (errs @ [e1])"
    using assms(1,2) by (rule retry_step)
  also have "\<dots> = pRetryFrom opts run (Suc 0) (Suc (Suc n))
      ((waits @ [backoff opts (n - 1)]) @ [backoff opts (Suc n - 1)]) ((errs @ [e1]) @ [e2])"
    using assms(3,4) by (rule retry_step)
  also have "\<dots> = pRetryFrom opts run 0 (Suc (Suc (Suc n)))
      (((waits @ [backoff opts (n - 1)]) @ [backoff opts (Suc n - 1)])
         @ [backoff opts (Suc (Suc n) - 1)])
      (((errs @ [e1]) @ [e2]) @ [e3])"
    using assms(5,6) by (rule retry_step)
  also have "\<dots> = (Inl (errs @ [e1, e2, e3, e4]), Suc (Suc (Suc n)),
      waits @ [backoff opts (n - 1), backoff opts n, backoff opts (Suc n)])"
    using assms(7) by (simp add: retry_last del: pRetryFrom.simps)
  finally show ?thesis .
qed

lemma retry_stop2:
  assumes "run n = Inl e1" "e1 \<noteq> TypeError" "\<forall>m. run (Suc n) \<noteq> Inl (PlainError m)"
  shows "pRetryFrom opts run (Suc (Suc (Suc 0))) n waits errs =
     ((case run (Suc n) of Inr v \<Rightarrow> Inr v | Inl e \<Rightarrow> Inl (errs @ [e1, e])), Suc n,
      waits @ [backoff opts (n - 1)])"
proof -
  have "pRetryFrom opts run (Suc (Suc (Suc 0))) n waits errs
      = pRetryFrom opts run (Suc (Suc 0)) (Suc n) (waits @ [backoff opts (n - 1)]) (errs @ [e1])"
    using assms(1,2) by (rule retry_step)
  also have "\<dots> = ((case run (Suc n) of Inr v \<Rightarrow> Inr v | Inl e \<Rightarrow> Inl ((errs @ [e1]) @ [e])),
      Suc n, waits @ [backoff opts (n - 1)])"
    using assms(3) by (rule retry_stop)
  finally show ?thesis by (simp del: pRetryFrom.simps split: sum.splits)
qed

lemma retry_stop3:
  assumes "run n = Inl e1" "e1 \<noteq> TypeError" "run (Suc n) = Inl e2" "e2 \<noteq> TypeError"
    "\<forall>m. run (Suc (Suc n)) \<noteq> Inl (PlainError m)"
  shows "pRetryFrom opts run (Suc (Suc (Suc 0))) n waits errs =
     ((case run (Suc (Suc n)) of Inr v \<Rightarrow> Inr v | Inl e \<Rightarrow> Inl (errs @ [e1, e2, e])),
      Suc (Suc n), waits @ [backoff opts (n - 1), backoff opts n])"
proof -
  have "pRetryFrom opts run (Suc (Suc (Suc 0))) n waits errs
      = pRetryFrom opts run (Suc (Suc 0)) (Suc n) (waits @ [backoff opts (n - 1)]) (errs @ [e1])"
    using assms(1,2) by (rule retry_step)
  also have "\<dots> = pRetryFrom opts run (Suc 0) (Suc (Suc n))
      ((waits @ [backoff opts (n - 1)]) @ [backoff opts (Suc n - 1)]) ((errs @ [e1]) @ [e2])"
    using assms(3,4) by (rule retry_step)
  also have "\<dots> = ((case run (Suc (Suc n)) of Inr v \<Rightarrow> Inr v
                     | Inl e \<Rightarrow> Inl (((errs @ [e1]) @ [e2]) @ [e])),
      Suc (Suc n), (waits @ [backoff opts (n - 1)]) @ [backoff opts (Suc n - 1)])"
    using assms(5) by (rule retry_stop)
  finally show ?thesis by (simp del: pRetryFrom.simps split: sum.splits)
qed

lemma retry_stop4:
  assumes "run n = Inl e1" "e1 \<noteq> TypeError" "run (Suc n) = Inl e2" "e2 \<noteq> TypeError"
    "run (Suc (Suc n)) = Inl e3" "e3 \<noteq> TypeError"
  shows "pRetryFrom opts run (Suc (Suc (Suc 0))) n waits errs =
     ((case run (Suc (Suc (Suc n))) of Inr v \<Rightarrow> Inr v | Inl e \<Rightarrow> Inl (errs @ [e1, e2, e3, e])),
      Suc (Suc (Suc n)), waits @ [backoff opts (n - 1), backoff opts n, backoff opts (Suc n)])"
proof -
  have "pRetryFrom opts run (Suc (Suc (Suc 0))) n waits errs
      = pRetryFrom opts run (Suc (Suc 0)) (Suc n) (waits @ [backoff opts (n - 1)]) (errs @ [e1])"
    using assms(1,2) by (rule retry_step)
  also have "\<dots> = pRetryFrom opts run (Suc 0) (Suc (Suc n))
      ((waits @ [backoff opts (n - 1)]) @ [backoff opts (Suc n - 1)]) ((errs @ [e1]) @ [e2])"
    using assms(3,4) by (rule retry_step)
  also have "\<dots> = pRetryFrom opts run 0 (Suc (Suc (Suc n)))
      (((waits @ [backoff opts (n - 1)]) @ [backoff opts (Suc n - 1)])
         @ [backoff opts (Suc (Suc n) - 1)])
      (((errs @ [e1]) @ [e2]) @ [e3])"
    using assms(5,6) by (rule retry_step)
  also have "\<dots> = ((case run (Suc (Suc (Suc n))) of Inr v \<Rightarrow> Inr v
                     | Inl e \<Rightarrow> Inl (errs @ [e1, e2, e3, e])),
      Suc (Suc (Suc n)), waits @ [backoff opts (n - 1), backoff opts n, backoff opts (Suc n)])"
    by (simp add: retry_last del: pRetryFrom.simps split: sum.splits)
  finally show ?thesis .
qed

text \<open>
  Claim C5 says that a request fails at once, without a retry, on HTTP 401, 404 and 422.
  The interceptor turns each of them, when the response has a body, into a plain error,
  which is retried like any other: after a 401 on the first attempt the request is sent
  again and can succeed, and a request answered by 401, 404 or 422 every time is sent
  four times.
\<close>

theorem fatal_statuses_are_retried:
  "unauthorizedOnce 1 = ErrorResponse 401 (Body None)
   \<and> makeRequest unauthorizedOnce = (Inr True, 2, [1000])
   \<and> snd (makeRequest (alwaysStatus 401)) = (4, [1000, 2000, 4000])
   \<and> snd (makeRequest (alwaysStatus 404)) = (4, [1000, 2000, 4000])
   \<and> snd (makeRequest (alwaysStatus 422)) = (4, [1000, 2000, 4000])"
  by (simp add: makeRequest_unfold backoffs unauthorizedOnce_def alwaysStatus_def
      responseInterceptor_def)

text \<open>
  Claim C5, amended: an attempt that the interceptor ends with a plain error is retried.
  That is every error response with status 401, 403 or 404, every error response of
  another status (422 included) that has a body, and every error without a response. The
  one failure that ends a request at once is the \<^verbatim>\<open>TypeError\<close> that the interceptor
  itself raises when it reads \<^verbatim>\<open>data.message\<close> of an error response without a body
  whose status is not 401, 403 or 404. So a request whose four attempts all end with a
  plain error waits 1000, 2000 and 4000 ms between them and fails with their errors; a
  request whose attempt \<open>k\<close> is the first not to end with a plain error makes \<open>k\<close>
  attempts, after the first \<open>k - 1\<close> of these waits, and ends as attempt \<open>k\<close> does: with
  its data, or with the errors of the \<open>k\<close> attempts.
\<close>

theorem plain_errors_are_retried:
  "(throwsPlainError (ErrorResponse status body :: 'a Response)
      \<longleftrightarrow> status = 401 \<or> status = 403 \<or> status = 404 \<or> body \<noteq> NoBody)
   \<and> (status2 \<noteq> 401 \<and> status2 \<noteq> 403 \<and> status2 \<noteq> 404 \<longrightarrow>
        responseInterceptor (ErrorResponse status2 NoBody :: 'a Response) = Inl TypeError)
   \<and> throwsPlainError (NoResponse e :: 'a Response)
   \<and> \<not> throwsPlainError (Success d :: 'a Response)
   \<and> ((\<forall>n. 1 \<le> n \<and> n \<le> 4 \<longrightarrow> throwsPlainError (responses n)) \<longrightarrow>
        makeRequest (responses :: nat \<Rightarrow> 'a Response)
          = (Inl (map (thrownBy responses) [1, 2, 3, 4]), 4, [1000, 2000, 4000]))
   \<and> (1 \<le> k \<and> k \<le> 4 \<and> \<not> throwsPlainError (responses2 k)
        \<and> (\<forall>n. 1 \<le> n \<and> n < k \<longrightarrow> throwsPlainError (responses2 n)) \<longrightarrow>
        makeRequest (responses2 :: nat \<Rightarrow> 'a Response)
          = ((case responseInterceptor (responses2 k) of
                Inr data \<Rightarrow> Inr data
              | Inl e \<Rightarrow> Inl (map (thrownBy responses2) (take k [1, 2, 3, 4]))),
             k, take (k - 1) [1000, 2000, 4000]))"
proof (intro conjI impI)
  show "throwsPlainError (ErrorResponse status body :: 'a Response)
      \<longleftrightarrow> status = 401 \<or> status = 403 \<or> status = 404 \<or> body \<noteq> NoBody"
    by (rule interceptor_statuses)
next
  assume "status2 \<noteq> 401 \<and> status2 \<noteq> 403 \<and> status2 \<noteq> 404"
  then show "responseInterceptor (ErrorResponse status2 NoBody :: 'a Response) = Inl TypeError"
    by (rule interceptor_null_body)
next
  show "throwsPlainError (NoResponse e :: 'a Response)"
    by (simp add: throwsPlainError_def responseInterceptor_def)
next
  show "\<not> throwsPlainError (Success d :: 'a Response)"
    by (simp add: throwsPlainError_def responseInterceptor_def)
next
  assume a: "\<forall>n. 1 \<le> n \<and> n \<le> 4 \<longrightarrow> throwsPlainError (responses n)"
  let ?run = "\<lambda>n. responseInterceptor (responses n)"
  have p: "throwsPlainError (responses 1)" "throwsPlainError (responses (Suc 1))"
    "throwsPlainError (responses (Suc (Suc 1)))" "throwsPlainError (responses (Suc (Suc (Suc 1))))"
    using a by simp_all
  have "makeRequest responses = pRetryFrom retryOptions ?run (Suc (Suc (Suc 0))) 1 [] []"
    by (rule makeRequest_unfold)
  also have "\<dots> = (Inl ([] @ [thrownBy responses 1, thrownBy responses (Suc 1),
        thrownBy responses (Suc (Suc 1)), thrownBy responses (Suc (Suc (Suc 1)))]),
      Suc (Suc (Suc 1)),
      [] @ [backoff retryOptions (1 - 1), backoff retryOptions 1, backoff retryOptions (Suc 1)])"
    using interceptor_plain [of responses 1, OF p(1)]
      interceptor_plain [of responses "Suc 1", OF p(2)]
      interceptor_plain [of responses "Suc (Suc 1)", OF p(3)]
      interceptor_plain [of responses "Suc (Suc (Suc 1))", OF p(4)]
    by (intro retry_fail3) blast+
  also have "\<dots> = (Inl (map (thrownBy responses) [1, 2, 3, 4]), 4, [1000, 2000, 4000])"
    by (simp add: backoffs attempt_numerals)
  finally show "makeRequest responses
      = (Inl (map (thrownBy responses) [1, 2, 3, 4]), 4, [1000, 2000, 4000])" .
next
  assume b: "1 \<le> k \<and> k \<le> 4 \<and> \<not> throwsPlainError (responses2 k)
        \<and> (\<forall>n. 1 \<le> n \<and> n < k \<longrightarrow> throwsPlainError (responses2 n))"
  let ?run = "\<lambda>n. responseInterceptor (responses2 n)"
  have s: "\<forall>m. ?run k \<noteq> Inl (PlainError m)"
    using b by (simp add: interceptor_not_plain)
  have f: "\<And>n. 1 \<le> n \<Longrightarrow> n < k \<Longrightarrow>
      ?run n = Inl (thrownBy responses2 n) \<and> thrownBy responses2 n \<noteq> TypeError"
    using b by (simp add: interceptor_plain)
  have u: "makeRequest responses2 = pRetryFrom retryOptions ?run (Suc (Suc (Suc 0))) 1 [] []"
    by (rule makeRequest_unfold)
  from b have "k = 1 \<or> k = Suc 1 \<or> k = Suc (Suc 1) \<or> k = Suc (Suc (Suc 1))" by arith
  then show "makeRequest responses2
          = ((case responseInterceptor (responses2 k) of
                Inr data \<Rightarrow> Inr data
              | Inl e \<Rightarrow> Inl (map (thrownBy responses2) (take k [1, 2, 3, 4]))),
             k, take (k - 1) [1000, 2000, 4000])"
  proof (elim disjE)
    assume k: "k = 1"
    from s k have 1: "\<forall>m. ?run 1 \<noteq> Inl (PlainError m)" by simp
    have "pRetryFrom retryOptions ?run (Suc (Suc (Suc 0))) 1 [] []
        = ((case ?run 1 of Inr v \<Rightarrow> Inr v | Inl e \<Rightarrow> Inl ([] @ [e])), 1, [])"
      using 1 by (rule retry_stop)
    also have "\<dots> = ((case ?run 1 of
                Inr data \<Rightarrow> Inr data
              | Inl e \<Rightarrow> Inl (map (thrownBy responses2) (take 1 [1, 2, 3, 4]))),
             1, take (1 - 1) [1000, 2000, 4000])"
      by (simp add: thrownBy_def split: sum.splits)
    finally have r: "pRetryFrom retryOptions ?run (Suc (Suc (Suc 0))) 1 [] []
        = ((case ?run 1 of
                Inr data \<Rightarrow> Inr data
              | Inl e \<Rightarrow> Inl (map (thrownBy responses2) (take 1 [1, 2, 3, 4]))),
             1, take (1 - 1) [1000, 2000, 4000])" .
    show ?thesis unfolding u k by (rule r)
  next
    assume k: "k = Suc 1"
    from f [of 1] k have 1: "?run 1 = Inl (thrownBy responses2 1)"
      "thrownBy responses2 1 \<noteq> TypeError" by simp_all
    from s k have 2: "\<forall>m. ?run (Suc 1) \<noteq> Inl (PlainError m)" by simp
    have "pRetryFrom retryOptions ?run (Suc (Suc (Suc 0))) 1 [] []
        = ((case ?run (Suc 1) of Inr v \<Rightarrow> Inr v
            | Inl e \<Rightarrow> Inl ([] @ [thrownBy responses2 1, e])),
           Suc 1, [] @ [backoff retryOptions (1 - 1)])"
      using 1 2 by (rule retry_stop2)
    also have "\<dots> = ((case ?run (Suc 1) of
                Inr data \<Rightarrow> Inr data
              | Inl e \<Rightarrow> Inl (map (thrownBy responses2) (take (Suc 1) [1, 2, 3, 4]))),
             Suc 1, take (Suc 1 - 1) [1000, 2000, 4000])"
      by (simp add: thrownBy_def backoffs attempt_numerals split: sum.splits)
    finally have r: "pRetryFrom retryOptions ?run (Suc (Suc (Suc 0))) 1 [] []
        = ((case ?run (Suc 1) of
                Inr data \<Rightarrow> Inr data
              | Inl e \<Rightarrow> Inl (map (thrownBy responses2) (take (Suc 1) [1, 2, 3, 4]))),
             Suc 1, take (Suc 1 - 1) [1000, 2000, 4000])" .
    show ?thesis unfolding u k by (rule r)
  next
    assume k: "k = Suc (Suc 1)"
    from f [of 1] f [of "Suc 1"] k have 1: "?run 1 = Inl (thrownBy responses2 1)"
      "thrownBy responses2 1 \<noteq> TypeError"
      and 2: "?run (Suc 1) = Inl (thrownBy responses2 (Suc 1))"
      "thrownBy responses2 (Suc 1) \<noteq> TypeError" by simp_all
    from s k have 3: "\<forall>m. ?run (Suc (Suc 1)) \<noteq> Inl (PlainError m)" by simp
    have "pRetryFrom retryOptions ?run (Suc (Suc (Suc 0))) 1 [] []
        = ((case ?run (Suc (Suc 1)) of Inr v \<Rightarrow> Inr v
            | Inl e \<Rightarrow> Inl ([] @ [thrownBy responses2 1, thrownBy responses2 (Suc 1), e])),
           Suc (Suc 1), [] @ [backoff retryOptions (1 - 1), backoff retryOptions 1])"
      using 1 2 3 by (rule retry_stop3)
    also have "\<dots> = ((case ?run (Suc (Suc 1)) of
                Inr data \<Rightarrow> Inr data
              | Inl e \<Rightarrow> Inl (map (thrownBy responses2) (take (Suc (Suc 1)) [1, 2, 3, 4]))),
             Suc (Suc 1), take (Suc (Suc 1) - 1) [1000, 2000, 4000])"
      by (simp add: thrownBy_def backoffs attempt_numerals split: sum.splits)
    finally have r: "pRetryFrom retryOptions ?run (Suc (Suc (Suc 0))) 1 [] []
        = ((case ?run (Suc (Suc 1)) of
                Inr data \<Rightarrow> Inr data
              | Inl e \<Rightarrow> Inl (map (thrownBy responses2) (take (Suc (Suc 1)) [1, 2, 3, 4]))),
             Suc (Suc 1), take (Suc (Suc 1) - 1) [1000, 2000, 4000])" .
    show ?thesis unfolding u k by (rule r)
  next
    assume k: "k = Suc (Suc (Suc 1))"
    from f [of 1] f [of "Suc 1"] f [of "Suc (Suc 1)"] k
    have 1: "?run 1 = Inl (thrownBy responses2 1)" "thrownBy responses2 1 \<noteq> TypeError"
      and 2: "?run (Suc 1) = Inl (thrownBy responses2 (Suc 1))"
      "thrownBy responses2 (Suc 1) \<noteq> TypeError"
      and 3: "?run (Suc (Suc 1)) = Inl (thrownBy responses2 (Suc (Suc 1)))"
      "thrownBy responses2 (Suc (Suc 1)) \<noteq> TypeError"
      by simp_all
    have "pRetryFrom retryOptions ?run (Suc (Suc (Suc 0))) 1 [] []
        = ((case ?run (Suc (Suc (Suc 1))) of Inr v \<Rightarrow> Inr v
            | Inl e \<Rightarrow> Inl ([] @ [thrownBy responses2 1, thrownBy responses2 (Suc 1),
                                  thrownBy responses2 (Suc (Suc 1)), e])),
           Suc (Suc (Suc 1)),
           [] @ [backoff retryOptions (1 - 1), backoff retryOptions 1, backoff retryOptions (Suc 1)])"
      using 1 2 3 by (rule retry_stop4)
    also have "\<dots> = ((case ?run (Suc (Suc (Suc 1))) of
                Inr data \<Rightarrow> Inr data
              | Inl e \<Rightarrow> Inl (map (thrownBy responses2) (take (Suc (Suc (Suc 1))) [1, 2, 3, 4]))),
             Suc (Suc (Suc 1)), take (Suc (Suc (Suc 1)) - 1) [1000, 2000, 4000])"
      by (simp add: thrownBy_def backoffs attempt_numerals split: sum.splits)
    finally have r: "pRetryFrom retryOptions ?run (Suc (Suc (Suc 0))) 1 [] []
        = ((case ?run (Suc (Suc (Suc 1))) of
                Inr data \<Rightarrow> Inr data
              | Inl e \<Rightarrow> Inl (map (thrownBy responses2) (take (Suc (Suc (Suc 1))) [1, 2, 3, 4]))),
             Suc (Suc (Suc 1)), take (Suc (Suc (Suc 1)) - 1) [1000, 2000, 4000])" .
    show ?thesis unfolding u k by (rule r)
  qed
qed

theorem plain_errors_are_retried_witness:
  "throwsPlainError (ErrorResponse 422 (Body None) :: bool Response)
   \<and> responseInterceptor (ErrorResponse 422 NoBody :: bool Response) = Inl TypeError
   \<and> throwsPlainError (NoResponse (js ''Network Error'') :: bool Response)
   \<and> alwaysStatus 401 1 = ErrorResponse 401 (Body None)
   \<and> thrownBy (alwaysStatus 401) 1
       = PlainError (js ''Invalid Discogs API token. Please check your credentials.'')
   \<and> makeRequest (alwaysStatus 401)
       = (Inl (map (thrownBy (alwaysStatus 401)) [1, 2, 3, 4]), 4, [1000, 2000, 4000])
   \<and> emptyBodyOnSecond 1 = ErrorResponse 404 (Body None)
   \<and> emptyBodyOnSecond 2 = ErrorResponse 500 NoBody
   \<and> makeRequest emptyBodyOnSecond
       = (Inl [PlainError (js ''Resource not found.''), TypeError], 2, [1000])
   \<and> unauthorizedOnce 1 = ErrorResponse 401 (Body None)
   \<and> unauthorizedOnce 2 = Success True
   \<and> makeRequest unauthorizedOnce = (Inr True, 2, [1000])"
proof -
  note th1 = plain_errors_are_retried
    [of 422 "Body None" 422 "js ''Network Error''" True "alwaysStatus 401" 2 emptyBodyOnSecond]
  note th2 = plain_errors_are_retried
    [of 422 "Body None" 422 "js ''Network Error''" True "alwaysStatus 401" 2 unauthorizedOnce]
  have i1: "throwsPlainError (ErrorResponse 422 (Body None) :: bool Response)"
    using th1 by simp
  have i2: "responseInterceptor (ErrorResponse 422 NoBody :: bool Response) = Inl TypeError"
    using th1 by simp
  have i3: "throwsPlainError (NoResponse (js ''Network Error'') :: bool Response)"
    using th1 by simp
  have a: "\<forall>n. 1 \<le> n \<and> n \<le> 4 \<longrightarrow> throwsPlainError (alwaysStatus 401 n)"
    by (simp add: alwaysStatus_def throwsPlainError_def responseInterceptor_def)
  have a1: "alwaysStatus 401 1 = ErrorResponse 401 (Body None)" by (simp add: alwaysStatus_def)
  have e: "thrownBy (alwaysStatus 401) 1
      = PlainError (js ''Invalid Discogs API token. Please check your credentials.'')"
    by (simp add: alwaysStatus_def responseInterceptor_def thrownBy_def)
  from th1 a have 1: "makeRequest (alwaysStatus 401)
       = (Inl (map (thrownBy (alwaysStatus 401)) [1, 2, 3, 4]), 4, [1000, 2000, 4000])"
    by blast
  have n1: "emptyBodyOnSecond 1 = ErrorResponse 404 (Body None)"
    and n2: "emptyBodyOnSecond 2 = ErrorResponse 500 NoBody"
    by (simp_all add: emptyBodyOnSecond_def)
  have n3: "\<not> throwsPlainError (emptyBodyOnSecond 2)"
    by (simp add: n2 throwsPlainError_def responseInterceptor_def)
  have n4: "\<forall>n. 1 \<le> n \<and> n < 2 \<longrightarrow> throwsPlainError (emptyBodyOnSecond n)"
    by (simp add: emptyBodyOnSecond_def throwsPlainError_def responseInterceptor_def)
  from th1 n3 n4 have "makeRequest emptyBodyOnSecond
          = ((case responseInterceptor (emptyBodyOnSecond 2) of
                Inr data \<Rightarrow> Inr data
              | Inl e \<Rightarrow> Inl (map (thrownBy emptyBodyOnSecond) (take 2 [1, 2, 3, 4]))),
             2, take (2 - 1) [1000, 2000, 4000])"
    by simp
  then have 2: "makeRequest emptyBodyOnSecond
       = (Inl [PlainError (js ''Resource not found.''), TypeError], 2, [1000])"
    by (simp add: emptyBodyOnSecond_def thrownBy_def responseInterceptor_def take_Suc_conv_app_nth
        numeral_2_eq_2)
  have b: "unauthorizedOnce 2 = Success True" by (simp add: unauthorizedOnce_def)
  have c: "unauthorizedOnce 1 = ErrorResponse 401 (Body None)" by (simp add: unauthorizedOnce_def)
  have b1: "\<not> throwsPlainError (unauthorizedOnce 2)"
    by (simp add: b throwsPlainError_def responseInterceptor_def)
  have d: "\<forall>n. 1 \<le> n \<and> n < 2 \<longrightarrow> throwsPlainError (unauthorizedOnce n)"
    by (simp add: unauthorizedOnce_def throwsPlainError_def responseInterceptor_def)
  from th2 b1 d have "makeRequest unauthorizedOnce
          = ((case responseInterceptor (unauthorizedOnce 2) of
                Inr data \<Rightarrow> Inr data
              | Inl e \<Rightarrow> Inl (map (thrownBy unauthorizedOnce) (take 2 [1, 2, 3, 4]))),
             2, take (2 - 1) [1000, 2000, 4000])"
    by simp
  then have 3: "makeRequest unauthorizedOnce = (Inr True, 2, [1000])"
    by (simp add: b responseInterceptor_def)
  from i1 i2 i3 a1 e 1 n1 n2 2 c b 3 show ?thesis by blast
qed

section \<open>Enrichment: properties\<close>

text \<open>
  Claim C6 says that within one call of \<^verbatim>\<open>enrichWithMasterData\<close> the master of an
  identifier shared by several releases is fetched exactly once. Two releases of one
  batch that share master 7 both miss \<^verbatim>\<open>masterCache\<close> when both detail requests
  settle before the first master request does (the schedule 0, 1, 0, 1): the master is
  fetched twice. When the first release finishes before the second is resumed (the
  schedule 0, 0, 1, 1) it is fetched once.
\<close>

theorem shared_master_fetched_twice:
  "map masterIdOf twoPressings = [Some 7, Some 7]
   \<and> masterCalls (snd (enrichWithMasterData sampleRemote [[0, 1, 0, 1]] twoPressings)) = [7, 7]
   \<and> masterCalls (snd (enrichWithMasterData sampleRemote [[0, 0, 1, 1]] twoPressings)) = [7]"
  by (simp add: twoPressings_def item1970_def itemNoYear_def sampleRemote_def
      enrichWithMasterData_def processBatch_def resumeAt_def resume_def batchSize_def
      masterIdOf_def releaseIdOf_def truthy_num_def upt_rec Let_def)

end
